theory Spec2Isabelle
  imports Main "HOL-Library.Word"
begin

unbundle bit_operations_syntax

section \<open>Values of the JavaScript runtime\<close>

text \<open>
  The module \<^verbatim>\<open>src/utils/crypto-utils.ts\<close> works on \<^verbatim>\<open>Uint8Array\<close>s and on
  JavaScript strings. A \<^verbatim>\<open>Uint8Array\<close> is a list of bytes; a JavaScript string is a
  list of UTF-16 code units. A rejected promise or a thrown exception is the left
  summand of the result, named after the exception the runtime raises
  (\<open>WebCryptoNotAvailable\<close> is the module's own
  \<^verbatim>\<open>Error('Web Crypto API not available')\<close>).
\<close>

type_synonym byte = "8 word"
type_synonym Uint8Array = "byte list"
type_synonym jsstring = "16 word list"

datatype js_error =
    WebCryptoNotAvailable
  | SyntaxError
  | TypeError
  | InvalidCharacterError
  | OperationError
  | DataError
  | InvalidAccessError
  | NotSupportedError

text \<open>An ASCII literal as a JavaScript string.\<close>

definition js :: "string \<Rightarrow> jsstring" where
  "js s = map (\<lambda>c. of_nat (of_char c)) s"

subsection \<open>TextEncoder\<close>

text \<open>
  \<^verbatim>\<open>new TextEncoder().encode(s)\<close>: the string is read as UTF-16 (a surrogate
  without its partner becomes U+FFFD) and every code point is written in UTF-8.
\<close>

definition is_lead :: "16 word \<Rightarrow> bool" where
  "is_lead u = (0xD800 \<le> unat u \<and> unat u \<le> 0xDBFF)"

definition is_trail :: "16 word \<Rightarrow> bool" where
  "is_trail u = (0xDC00 \<le> unat u \<and> unat u \<le> 0xDFFF)"

fun code_points :: "jsstring \<Rightarrow> nat list" where
  "code_points [] = []"
| "code_points (u # us) =
     (if is_lead u then
        (case us of
           [] \<Rightarrow> [0xFFFD]
         | v # vs \<Rightarrow>
             if is_trail v
             then (0x10000 + (unat u - 0xD800) * 0x400 + (unat v - 0xDC00)) # code_points vs
             else 0xFFFD # code_points us)
      else if is_trail u then 0xFFFD # code_points us
      else unat u # code_points us)"

definition utf8_bytes :: "nat \<Rightarrow> Uint8Array" where
  "utf8_bytes cp =
     (if cp < 0x80 then [of_nat cp]
      else if cp < 0x800 then [of_nat (0xC0 + cp div 0x40), of_nat (0x80 + cp mod 0x40)]
      else if cp < 0x10000 then
        [of_nat (0xE0 + cp div 0x1000), of_nat (0x80 + (cp div 0x40) mod 0x40),
         of_nat (0x80 + cp mod 0x40)]
      else
        [of_nat (0xF0 + cp div 0x40000), of_nat (0x80 + (cp div 0x1000) mod 0x40),
         of_nat (0x80 + (cp div 0x40) mod 0x40), of_nat (0x80 + cp mod 0x40)])"

definition TextEncoder_encode :: "jsstring \<Rightarrow> Uint8Array" where
  "TextEncoder_encode s = concat (map utf8_bytes (code_points s))"

subsection \<open>The Web Crypto provider\<close>

text \<open>
  The module reads the global \<^verbatim>\<open>crypto\<close> once
  (\<^verbatim>\<open>globalThis.crypto ? globalThis.crypto : null\<close>) and calls five methods of
  \<^verbatim>\<open>crypto.subtle\<close>. The provider is a parameter of the model: a record of these
  methods over an opaque type of key handles (\<^verbatim>\<open>CryptoKey\<close>). The arguments are the
  ones the source passes, in its order.
\<close>

record Pbkdf2Params =
  pbkdf2_name :: string
  pbkdf2_hash :: string
  pbkdf2_salt :: Uint8Array
  pbkdf2_iterations :: nat

record AesDerivedKeyParams =
  aes_name :: string
  aes_length :: nat

record AesGcmParams =
  gcm_name :: string
  gcm_iv :: Uint8Array

record 'k SubtleCrypto =
  subtle_importKey :: "string \<Rightarrow> Uint8Array \<Rightarrow> string \<Rightarrow> bool \<Rightarrow> string list \<Rightarrow> js_error + 'k"
  subtle_deriveKey ::
    "Pbkdf2Params \<Rightarrow> 'k \<Rightarrow> AesDerivedKeyParams \<Rightarrow> bool \<Rightarrow> string list \<Rightarrow> js_error + 'k"
  subtle_exportKey :: "string \<Rightarrow> 'k \<Rightarrow> js_error + Uint8Array"
  subtle_encrypt :: "AesGcmParams \<Rightarrow> 'k \<Rightarrow> Uint8Array \<Rightarrow> js_error + Uint8Array"
  subtle_decrypt :: "AesGcmParams \<Rightarrow> 'k \<Rightarrow> Uint8Array \<Rightarrow> js_error + Uint8Array"

record 'k Crypto =
  subtle :: "'k SubtleCrypto option"

text \<open>\<^verbatim>\<open>crypto?.subtle\<close>: absent when \<^verbatim>\<open>crypto\<close> is null or has no \<^verbatim>\<open>subtle\<close>.\<close>

definition crypto_subtle :: "'k Crypto option \<Rightarrow> 'k SubtleCrypto option" where
  "crypto_subtle crypto = (case crypto of None \<Rightarrow> None | Some c \<Rightarrow> subtle c)"

text \<open>
  \<^verbatim>\<open>crypto.getRandomValues(new Uint8Array(n))\<close> fills a fresh array of \<open>n\<close> bytes
  from the entropy source. The source of entropy is a stream of bytes; a call
  consumes the \<open>n\<close> bytes it returns.
\<close>

type_synonym rng = "nat \<Rightarrow> byte"

definition getRandomValues :: "nat \<Rightarrow> rng \<Rightarrow> Uint8Array \<times> rng" where
  "getRandomValues n r = (map r [0..<n], \<lambda>i. r (i + n))"

subsection \<open>btoa and atob\<close>

text \<open>
  \<^verbatim>\<open>btoa\<close> takes a string of code units up to 255 (it throws on any other) and
  writes its bytes in base64 with padding. \<^verbatim>\<open>atob\<close> is the forgiving decoder of the
  platform: it drops ASCII whitespace, drops one or two trailing \<^verbatim>\<open>=\<close> when the length
  is a multiple of 4, throws when the length is then 1 modulo 4 or a character is outside
  the alphabet, and decodes six bits per character, dropping the bits of an incomplete
  last byte.
\<close>

definition b64_alphabet :: jsstring where
  "b64_alphabet = js ''ABCDEFGHIJKLMNOPQRSTUVWXYZabcdefghijklmnopqrstuvwxyz0123456789+/''"

definition b64_pad :: "16 word" where
  "b64_pad = 0x3D"

definition b64_char :: "nat \<Rightarrow> 16 word" where
  "b64_char n = b64_alphabet ! n"

fun index_of :: "'a \<Rightarrow> 'a list \<Rightarrow> nat option" where
  "index_of x [] = None"
| "index_of x (y # ys) = (if x = y then Some 0 else map_option Suc (index_of x ys))"

definition b64_value :: "16 word \<Rightarrow> nat option" where
  "b64_value c = index_of c b64_alphabet"

fun b64_encode :: "nat list \<Rightarrow> jsstring" where
  "b64_encode [] = []"
| "b64_encode [a] = [b64_char (a div 4), b64_char ((a mod 4) * 16), b64_pad, b64_pad]"
| "b64_encode [a, b] =
     [b64_char (a div 4), b64_char ((a mod 4) * 16 + b div 16), b64_char ((b mod 16) * 4),
      b64_pad]"
| "b64_encode (a # b # c # bs) =
     b64_char (a div 4) # b64_char ((a mod 4) * 16 + b div 16) #
     b64_char ((b mod 16) * 4 + c div 64) # b64_char (c mod 64) # b64_encode bs"

text \<open>The encoding before its padding is appended.\<close>

fun b64_nopad :: "nat list \<Rightarrow> jsstring" where
  "b64_nopad [] = []"
| "b64_nopad [a] = [b64_char (a div 4), b64_char ((a mod 4) * 16)]"
| "b64_nopad [a, b] =
     [b64_char (a div 4), b64_char ((a mod 4) * 16 + b div 16), b64_char ((b mod 16) * 4)]"
| "b64_nopad (a # b # c # bs) =
     b64_char (a div 4) # b64_char ((a mod 4) * 16 + b div 16) #
     b64_char ((b mod 16) * 4 + c div 64) # b64_char (c mod 64) # b64_nopad bs"

definition btoa :: "jsstring \<Rightarrow> js_error + jsstring" where
  "btoa s =
     (if list_all (\<lambda>u. unat u \<le> 0xFF) s then Inr (b64_encode (map unat s))
      else Inl InvalidCharacterError)"

definition is_ascii_whitespace :: "16 word \<Rightarrow> bool" where
  "is_ascii_whitespace u = (u = 0x09 \<or> u = 0x0A \<or> u = 0x0C \<or> u = 0x0D \<or> u = 0x20)"

definition strip_padding :: "jsstring \<Rightarrow> jsstring" where
  "strip_padding d =
     (if length d mod 4 = 0 \<and> d \<noteq> [] \<and> last d = b64_pad then
        (if butlast d \<noteq> [] \<and> last (butlast d) = b64_pad then butlast (butlast d)
         else butlast d)
      else d)"

fun b64_decode :: "nat list \<Rightarrow> nat list" where
  "b64_decode (a # b # c # d # vs) =
     (a * 4 + b div 16) # ((b mod 16) * 16 + c div 4) # ((c mod 4) * 64 + d) # b64_decode vs"
| "b64_decode [a, b, c] = [a * 4 + b div 16, (b mod 16) * 16 + c div 4]"
| "b64_decode [a, b] = [a * 4 + b div 16]"
| "b64_decode vs = []"

definition atob :: "jsstring \<Rightarrow> js_error + jsstring" where
  "atob s =
     (case strip_padding (filter (\<lambda>u. \<not> is_ascii_whitespace u) s) of
        d \<Rightarrow>
          if length d mod 4 = 1 then Inl InvalidCharacterError
          else if list_all (\<lambda>u. b64_value u \<noteq> None) d
          then Inr (map of_nat (b64_decode (map (\<lambda>u. the (b64_value u)) d)))
          else Inl InvalidCharacterError)"

subsection \<open>Values read from JSON\<close>

text \<open>
  What \<^verbatim>\<open>JSON.parse\<close> can return, and \<^verbatim>\<open>undefined\<close>. A number keeps the text it
  was written with. The members of an object are kept in the order of the text; a later
  member of the same name overrides an earlier one.
\<close>

datatype jsvalue =
    JUndefined
  | JNull
  | JBool bool
  | JNumber jsstring
  | JString jsstring
  | JArray "jsvalue list"
  | JObject "(jsstring \<times> jsvalue) list"

text \<open>
  Reading a property whose name no built-in prototype defines (the module reads
  \<^verbatim>\<open>ciphertext\<close>, \<^verbatim>\<open>nonce\<close> and \<^verbatim>\<open>salt\<close>): a \<^verbatim>\<open>TypeError\<close> on
  \<^verbatim>\<open>null\<close> and \<^verbatim>\<open>undefined\<close>, the member of an object, \<^verbatim>\<open>undefined\<close> otherwise.
\<close>

definition get_property :: "jsvalue \<Rightarrow> jsstring \<Rightarrow> js_error + jsvalue" where
  "get_property v k =
     (case v of
        JUndefined \<Rightarrow> Inl TypeError
      | JNull \<Rightarrow> Inl TypeError
      | JObject kvs \<Rightarrow> Inr (case map_of (rev kvs) k of None \<Rightarrow> JUndefined | Some x \<Rightarrow> x)
      | _ \<Rightarrow> Inr JUndefined)"

text \<open>
  The conversion to a string that \<^verbatim>\<open>atob\<close> applies to its argument. How the
  runtime prints a number is not defined here: it is the parameter \<open>num\<close>, from the
  text of the number to the text printed. The elements of an array are converted from
  left to right and joined by commas, \<^verbatim>\<open>null\<close> and \<^verbatim>\<open>undefined\<close> among them as
  the empty string. An object prints as \<^verbatim>\<open>[object Object]\<close> through the
  \<^verbatim>\<open>toString\<close> it inherits; when it has a member named \<^verbatim>\<open>toString\<close> of its
  own, that member is no function (nothing read from JSON is), neither its
  \<^verbatim>\<open>valueOf\<close> nor the inherited one yields a primitive value, and the conversion
  throws a \<^verbatim>\<open>TypeError\<close>.
\<close>

definition is_digit :: "16 word \<Rightarrow> bool" where
  "is_digit u = (0x30 \<le> unat u \<and> unat u \<le> 0x39)"

fun join_strings :: "jsstring list \<Rightarrow> jsstring" where
  "join_strings [] = []"
| "join_strings [x] = x"
| "join_strings (x # y # ys) = x @ 0x2C # join_strings (y # ys)"

fun collect_results :: "(js_error + 'a) list \<Rightarrow> js_error + 'a list" where
  "collect_results [] = Inr []"
| "collect_results (x # xs) =
     (case x of
        Inl e \<Rightarrow> Inl e
      | Inr a \<Rightarrow> (case collect_results xs of Inl e \<Rightarrow> Inl e | Inr ys \<Rightarrow> Inr (a # ys)))"

fun js_ToString :: "(jsstring \<Rightarrow> jsstring) \<Rightarrow> jsvalue \<Rightarrow> js_error + jsstring" where
  "js_ToString num JUndefined = Inr (js ''undefined'')"
| "js_ToString num JNull = Inr (js ''null'')"
| "js_ToString num (JBool b) = Inr (if b then js ''true'' else js ''false'')"
| "js_ToString num (JNumber lexeme) = Inr (num lexeme)"
| "js_ToString num (JString s) = Inr s"
| "js_ToString num (JArray vs) =
     (case collect_results
             (map (\<lambda>v. if v = JUndefined \<or> v = JNull then Inr [] else js_ToString num v) vs) of
        Inl e \<Rightarrow> Inl e
      | Inr ss \<Rightarrow> Inr (join_strings ss))"
| "js_ToString num (JObject kvs) =
     (if map_of kvs (js ''toString'') = None then Inr (js ''[object Object]'') else Inl TypeError)"

subsection \<open>JSON.parse\<close>

text \<open>
  The JSON grammar as \<^verbatim>\<open>JSON.parse\<close> reads it: a value between optional
  whitespace (tab, line feed, carriage return, space), and nothing after it. Every
  parser returns what it read and the rest of the text, or nothing on a syntax error.
\<close>

definition is_json_ws :: "16 word \<Rightarrow> bool" where
  "is_json_ws u = (u = 0x09 \<or> u = 0x0A \<or> u = 0x0D \<or> u = 0x20)"

definition skip_ws :: "jsstring \<Rightarrow> jsstring" where
  "skip_ws cs = dropWhile is_json_ws cs"

definition hex_value :: "16 word \<Rightarrow> nat option" where
  "hex_value u =
     (if 0x30 \<le> unat u \<and> unat u \<le> 0x39 then Some (unat u - 0x30)
      else if 0x41 \<le> unat u \<and> unat u \<le> 0x46 then Some (unat u - 0x41 + 10)
      else if 0x61 \<le> unat u \<and> unat u \<le> 0x66 then Some (unat u - 0x61 + 10)
      else None)"

definition hex4 :: "16 word \<Rightarrow> 16 word \<Rightarrow> 16 word \<Rightarrow> 16 word \<Rightarrow> 16 word option" where
  "hex4 h1 h2 h3 h4 =
     (case (hex_value h1, hex_value h2, hex_value h3, hex_value h4) of
        (Some a, Some b, Some c, Some d) \<Rightarrow> Some (of_nat (((a * 16 + b) * 16 + c) * 16 + d))
      | _ \<Rightarrow> None)"

text \<open>The character after a backslash, other than \<^verbatim>\<open>u\<close>.\<close>

definition simple_escape :: "16 word \<Rightarrow> 16 word option" where
  "simple_escape e =
     (if e = 0x22 then Some 0x22 else if e = 0x5C then Some 0x5C
      else if e = 0x2F then Some 0x2F else if e = 0x62 then Some 0x08
      else if e = 0x66 then Some 0x0C else if e = 0x6E then Some 0x0A
      else if e = 0x72 then Some 0x0D else if e = 0x74 then Some 0x09
      else None)"

text \<open>The characters of a string, after its opening quote and up to its closing quote.\<close>

fun parse_string_chars :: "jsstring \<Rightarrow> (jsstring \<times> jsstring) option" where
  "parse_string_chars [] = None"
| "parse_string_chars (u # us) =
     (if u = 0x22 then Some ([], us)
      else if u = 0x5C then
        (case us of
           [] \<Rightarrow> None
         | e # es \<Rightarrow>
             if e = 0x75 then
               (case es of
                  h1 # h2 # h3 # h4 # rest \<Rightarrow>
                    (case hex4 h1 h2 h3 h4 of
                       None \<Rightarrow> None
                     | Some cu \<Rightarrow>
                         (case parse_string_chars rest of
                            None \<Rightarrow> None
                          | Some (s, r) \<Rightarrow> Some (cu # s, r)))
                | _ \<Rightarrow> None)
             else
               (case simple_escape e of
                  None \<Rightarrow> None
                | Some cu \<Rightarrow>
                    (case parse_string_chars es of
                       None \<Rightarrow> None
                     | Some (s, r) \<Rightarrow> Some (cu # s, r))))
      else if unat u < 0x20 then None
      else (case parse_string_chars us of
              None \<Rightarrow> None
            | Some (s, r) \<Rightarrow> Some (u # s, r)))"

text \<open>
  A number: an optional minus, an integer part without leading zeros, an optional
  fraction, an optional exponent. The parser returns the text of the number.
\<close>

definition parse_digits :: "jsstring \<Rightarrow> (jsstring \<times> jsstring) option" where
  "parse_digits cs =
     (if takeWhile is_digit cs = [] then None
      else Some (takeWhile is_digit cs, dropWhile is_digit cs))"

definition parse_int_part :: "jsstring \<Rightarrow> (jsstring \<times> jsstring) option" where
  "parse_int_part cs =
     (case cs of
        [] \<Rightarrow> None
      | d # ds \<Rightarrow>
          if d = 0x30 then Some ([d], ds)
          else if is_digit d then Some (d # takeWhile is_digit ds, dropWhile is_digit ds)
          else None)"

definition parse_frac_part :: "jsstring \<Rightarrow> (jsstring \<times> jsstring) option" where
  "parse_frac_part cs =
     (case cs of
        [] \<Rightarrow> Some ([], cs)
      | d # ds \<Rightarrow>
          if d = 0x2E then
            (case parse_digits ds of None \<Rightarrow> None | Some (f, r) \<Rightarrow> Some (d # f, r))
          else Some ([], cs))"

definition parse_exp_part :: "jsstring \<Rightarrow> (jsstring \<times> jsstring) option" where
  "parse_exp_part cs =
     (case cs of
        [] \<Rightarrow> Some ([], cs)
      | e # es \<Rightarrow>
          if e = 0x65 \<or> e = 0x45 then
            (case es of
               [] \<Rightarrow> None
             | g # gs \<Rightarrow>
                 if g = 0x2B \<or> g = 0x2D then
                   (case parse_digits gs of None \<Rightarrow> None | Some (x, r) \<Rightarrow> Some (e # g # x, r))
                 else
                   (case parse_digits es of None \<Rightarrow> None | Some (x, r) \<Rightarrow> Some (e # x, r)))
          else Some ([], cs))"

definition parse_number :: "jsstring \<Rightarrow> (jsstring \<times> jsstring) option" where
  "parse_number cs =
     (case (case cs of [] \<Rightarrow> ([], cs) | c # r \<Rightarrow> if c = 0x2D then ([c], r) else ([], cs)) of
        (sign, cs1) \<Rightarrow>
          (case parse_int_part cs1 of
             None \<Rightarrow> None
           | Some (i, cs2) \<Rightarrow>
               (case parse_frac_part cs2 of
                  None \<Rightarrow> None
                | Some (f, cs3) \<Rightarrow>
                    (case parse_exp_part cs3 of
                       None \<Rightarrow> None
                     | Some (x, cs4) \<Rightarrow> Some (sign @ i @ f @ x, cs4)))))"

definition parse_literal :: "jsstring \<Rightarrow> (jsvalue \<times> jsstring) option" where
  "parse_literal cs =
     (if take 4 cs = js ''true'' then Some (JBool True, drop 4 cs)
      else if take 5 cs = js ''false'' then Some (JBool False, drop 5 cs)
      else if take 4 cs = js ''null'' then Some (JNull, drop 4 cs)
      else None)"

lemma length_skip_ws: "length (skip_ws cs) \<le> length cs"
  by (simp add: skip_ws_def length_dropWhile_le)

lemma skip_ws_Cons_shorter: "skip_ws xs = d # r \<Longrightarrow> length r < length xs"
  using length_skip_ws [of xs] by simp

lemma parse_string_chars_shorter:
  "parse_string_chars cs = Some (s, r) \<Longrightarrow> length r < length cs"
proof (induction cs arbitrary: s r rule: parse_string_chars.induct)
  case 1
  then show ?case by simp
next
  case (2 u us)
  then show ?case
    by (fastforce split: if_splits list.splits option.splits prod.splits)
qed

text \<open>
  A value, the elements of an array after its opening bracket, and the members of an
  object from the quote of a name on. The test that a value has consumed text always
  holds (\<open>parse_value_shorter\<close>); it is there for the termination proof.
\<close>

function parse_value :: "jsstring \<Rightarrow> (jsvalue \<times> jsstring) option"
  and parse_elements :: "jsvalue list \<Rightarrow> jsstring \<Rightarrow> (jsvalue \<times> jsstring) option"
  and parse_members :: "(jsstring \<times> jsvalue) list \<Rightarrow> jsstring \<Rightarrow> (jsvalue \<times> jsstring) option"
where
  "parse_value cs =
     (case cs of
        [] \<Rightarrow> None
      | c # rest \<Rightarrow>
          if c = 0x7B then
            (case skip_ws rest of
               [] \<Rightarrow> None
             | d # r \<Rightarrow> if d = 0x7D then Some (JObject [], r) else parse_members [] (skip_ws rest))
          else if c = 0x5B then
            (case skip_ws rest of
               [] \<Rightarrow> None
             | d # r \<Rightarrow> if d = 0x5D then Some (JArray [], r) else parse_elements [] rest)
          else if c = 0x22 then
            (case parse_string_chars rest of None \<Rightarrow> None | Some (s, r) \<Rightarrow> Some (JString s, r))
          else if c = 0x2D \<or> is_digit c then
            (case parse_number cs of None \<Rightarrow> None | Some (n, r) \<Rightarrow> Some (JNumber n, r))
          else parse_literal cs)"
| "parse_elements acc cs =
     (case parse_value (skip_ws cs) of
        None \<Rightarrow> None
      | Some (v, rest) \<Rightarrow>
          if length rest < length cs then
            (case skip_ws rest of
               [] \<Rightarrow> None
             | d # r \<Rightarrow>
                 if d = 0x2C then parse_elements (acc @ [v]) r
                 else if d = 0x5D then Some (JArray (acc @ [v]), r)
                 else None)
          else None)"
| "parse_members acc cs =
     (case cs of
        [] \<Rightarrow> None
      | q # rest \<Rightarrow>
          if q = 0x22 then
            (case parse_string_chars rest of
               None \<Rightarrow> None
             | Some (k, r1) \<Rightarrow>
                 (case skip_ws r1 of
                    [] \<Rightarrow> None
                  | d # r2 \<Rightarrow>
                      if d = 0x3A then
                        (case parse_value (skip_ws r2) of
                           None \<Rightarrow> None
                         | Some (v, r3) \<Rightarrow>
                             if length r3 < length cs then
                               (case skip_ws r3 of
                                  [] \<Rightarrow> None
                                | e # r4 \<Rightarrow>
                                    if e = 0x2C then parse_members (acc @ [(k, v)]) (skip_ws r4)
                                    else if e = 0x7D then Some (JObject (acc @ [(k, v)]), r4)
                                    else None)
                             else None)
                      else None))
          else None)"
  by pat_completeness auto

termination
  apply (relation "inv_image (less_than <*lex*> less_than)
    (\<lambda>x. case x of Inl cs \<Rightarrow> (length cs, 0::nat)
         | Inr (Inl (acc, cs)) \<Rightarrow> (length cs, 1)
         | Inr (Inr (acc, cs)) \<Rightarrow> (length cs, 1))")
  subgoal by (intro wf_inv_image wf_lex_prod wf_less_than)
  subgoal for cs c rest d r
    using length_skip_ws [of rest] by simp
  subgoal by simp
  subgoal for acc cs
    using length_skip_ws [of cs] by auto
  subgoal for acc cs x2 v rest d r
    using skip_ws_Cons_shorter [of rest d r] by simp
  subgoal for acc cs q rest x2 k r1 d r2
    using parse_string_chars_shorter [of rest k r1] skip_ws_Cons_shorter [of r1 d r2]
      length_skip_ws [of r2] by simp
  subgoal for acc cs q rest x2 k r1 d r2 x2a v r3 e r4
    using skip_ws_Cons_shorter [of r3 e r4] length_skip_ws [of r4] by simp
  done

definition JSON_parse :: "jsstring \<Rightarrow> js_error + jsvalue" where
  "JSON_parse text0 =
     (case parse_value (skip_ws text0) of
        None \<Rightarrow> Inl SyntaxError
      | Some (v, rest) \<Rightarrow> if skip_ws rest = [] then Inr v else Inl SyntaxError)"

declare parse_value.simps [simp del] parse_elements.simps [simp del] parse_members.simps [simp del]

subsection \<open>JSON.stringify\<close>

text \<open>
  The quoting of a string: the short escapes, \<^verbatim>\<open>\u\<close> and four lower-case hex
  digits for the other control characters and for a surrogate without its partner, every
  other code unit as it is.
\<close>

definition hex_digit :: "nat \<Rightarrow> 16 word" where
  "hex_digit n = (if n < 10 then of_nat (0x30 + n) else of_nat (0x61 + (n - 10)))"

definition unicode_escape :: "16 word \<Rightarrow> jsstring" where
  "unicode_escape u =
     [0x5C, 0x75, hex_digit (unat u div 4096), hex_digit (unat u div 256 mod 16),
      hex_digit (unat u div 16 mod 16), hex_digit (unat u mod 16)]"

fun quote_chars :: "jsstring \<Rightarrow> jsstring" where
  "quote_chars [] = []"
| "quote_chars (u # us) =
     (if u = 0x08 then 0x5C # 0x62 # quote_chars us
      else if u = 0x09 then 0x5C # 0x74 # quote_chars us
      else if u = 0x0A then 0x5C # 0x6E # quote_chars us
      else if u = 0x0C then 0x5C # 0x66 # quote_chars us
      else if u = 0x0D then 0x5C # 0x72 # quote_chars us
      else if u = 0x22 then 0x5C # 0x22 # quote_chars us
      else if u = 0x5C then 0x5C # 0x5C # quote_chars us
      else if unat u < 0x20 then unicode_escape u @ quote_chars us
      else if is_lead u then
        (case us of
           [] \<Rightarrow> unicode_escape u
         | v # vs \<Rightarrow>
             if is_trail v then u # v # quote_chars vs
             else unicode_escape u @ quote_chars us)
      else if is_trail u then unicode_escape u @ quote_chars us
      else u # quote_chars us)"

definition QuoteJSONString :: "jsstring \<Rightarrow> jsstring" where
  "QuoteJSONString s = 0x22 # quote_chars s @ [0x22]"


section \<open>The module crypto-utils\<close>

record 'a Envelope =
  ciphertext :: 'a
  nonce :: 'a
  salt :: 'a

type_synonym EncryptedData = "Uint8Array Envelope"
type_synonym EncryptedDataBase64 = "jsstring Envelope"

definition ALGORITHM :: string where "ALGORITHM = ''PBKDF2''"
definition KEY_LENGTH :: nat where "KEY_LENGTH = 32"
definition ITERATIONS :: nat where "ITERATIONS = 100000"
definition HASH :: string where "HASH = ''SHA-256''"
definition NONCE_LENGTH :: nat where "NONCE_LENGTH = 24"
definition SALT_LENGTH :: nat where "SALT_LENGTH = 16"

text \<open>
  \<^verbatim>\<open>deriveKey(password, salt?)\<close> returns the object \<^verbatim>\<open>{ key, salt }\<close>, here the
  pair \<open>(key, salt)\<close>, and the entropy that is left.
\<close>

definition deriveKey ::
  "'k Crypto option \<Rightarrow> jsstring \<Rightarrow> Uint8Array option \<Rightarrow> rng
    \<Rightarrow> js_error + ((Uint8Array \<times> Uint8Array) \<times> rng)" where
  "deriveKey crypto password salt0 r =
     (case crypto_subtle crypto of
        None \<Rightarrow> Inl WebCryptoNotAvailable
      | Some s \<Rightarrow>
          (case (case salt0 of Some x \<Rightarrow> (x, r) | None \<Rightarrow> getRandomValues SALT_LENGTH r) of
             (usedSalt, r') \<Rightarrow>
               (case subtle_importKey s ''raw'' (TextEncoder_encode password) ALGORITHM False
                       [''deriveKey''] of
                  Inl e \<Rightarrow> Inl e
                | Inr baseKey \<Rightarrow>
                    (case subtle_deriveKey s
                            \<lparr>pbkdf2_name = ALGORITHM, pbkdf2_hash = HASH,
                             pbkdf2_salt = usedSalt, pbkdf2_iterations = ITERATIONS\<rparr>
                            baseKey
                            \<lparr>aes_name = ''AES-GCM'', aes_length = KEY_LENGTH * 8\<rparr>
                            True [''encrypt'', ''decrypt''] of
                       Inl e \<Rightarrow> Inl e
                     | Inr derivedKey \<Rightarrow>
                         (case subtle_exportKey s ''raw'' derivedKey of
                            Inl e \<Rightarrow> Inl e
                          | Inr keyData \<Rightarrow> Inr ((keyData, usedSalt), r'))))))"

text \<open>\<^verbatim>\<open>secretBox(plaintext, key, nonce?)\<close>: the nonce, then the AES-GCM output.\<close>

definition secretBox ::
  "'k Crypto option \<Rightarrow> Uint8Array \<Rightarrow> Uint8Array \<Rightarrow> Uint8Array option \<Rightarrow> rng
    \<Rightarrow> js_error + (Uint8Array \<times> rng)" where
  "secretBox crypto plaintext key nonce0 r =
     (case crypto_subtle crypto of
        None \<Rightarrow> Inl WebCryptoNotAvailable
      | Some s \<Rightarrow>
          (case (case nonce0 of Some x \<Rightarrow> (x, r) | None \<Rightarrow> getRandomValues NONCE_LENGTH r) of
             (usedNonce, r') \<Rightarrow>
               (case subtle_importKey s ''raw'' key ''AES-GCM'' False [''encrypt''] of
                  Inl e \<Rightarrow> Inl e
                | Inr cryptoKey \<Rightarrow>
                    (case subtle_encrypt s
                            \<lparr>gcm_name = ''AES-GCM'', gcm_iv = take 12 usedNonce\<rparr>
                            cryptoKey plaintext of
                       Inl e \<Rightarrow> Inl e
                     | Inr ct \<Rightarrow> Inr (usedNonce @ ct, r')))))"

text \<open>\<^verbatim>\<open>secretBoxOpen(ciphertext, key)\<close> draws no entropy.\<close>

definition secretBoxOpen ::
  "'k Crypto option \<Rightarrow> Uint8Array \<Rightarrow> Uint8Array \<Rightarrow> js_error + Uint8Array" where
  "secretBoxOpen crypto boxed key =
     (let nonce1 = take NONCE_LENGTH boxed;
          encrypted = drop NONCE_LENGTH boxed
      in case crypto_subtle crypto of
           None \<Rightarrow> Inl WebCryptoNotAvailable
         | Some s \<Rightarrow>
             (case subtle_importKey s ''raw'' key ''AES-GCM'' False [''decrypt''] of
                Inl e \<Rightarrow> Inl e
              | Inr cryptoKey \<Rightarrow>
                  subtle_decrypt s \<lparr>gcm_name = ''AES-GCM'', gcm_iv = take 12 nonce1\<rparr>
                    cryptoKey encrypted))"

datatype StringOrBytes = IsString jsstring | IsBytes Uint8Array

text \<open>The bytes \<^verbatim>\<open>encrypt\<close> seals: a string is encoded, an array is taken as it is.\<close>

definition plaintext_data :: "StringOrBytes \<Rightarrow> Uint8Array" where
  "plaintext_data plaintext =
     (case plaintext of IsString t \<Rightarrow> TextEncoder_encode t | IsBytes b \<Rightarrow> b)"

definition encrypt ::
  "'k Crypto option \<Rightarrow> StringOrBytes \<Rightarrow> jsstring \<Rightarrow> rng \<Rightarrow> js_error + (EncryptedData \<times> rng)" where
  "encrypt crypto plaintext password r =
     (case crypto of
        None \<Rightarrow> Inl WebCryptoNotAvailable
      | Some _ \<Rightarrow>
          (case deriveKey crypto password None r of
             Inl e \<Rightarrow> Inl e
           | Inr ((key, salt1), r1) \<Rightarrow>
               (case getRandomValues NONCE_LENGTH r1 of
                  (nonce1, r2) \<Rightarrow>
                    (case secretBox crypto (plaintext_data plaintext) key (Some nonce1) r2 of
                       Inl e \<Rightarrow> Inl e
                     | Inr (secretBoxed, r3) \<Rightarrow>
                         Inr (\<lparr>ciphertext = drop NONCE_LENGTH secretBoxed,
                               nonce = nonce1, salt = salt1\<rparr>, r3)))))"

definition decrypt ::
  "'k Crypto option \<Rightarrow> EncryptedData \<Rightarrow> jsstring \<Rightarrow> rng \<Rightarrow> js_error + (Uint8Array \<times> rng)" where
  "decrypt crypto encryptedData password r =
     (case deriveKey crypto password (Some (salt encryptedData)) r of
        Inl e \<Rightarrow> Inl e
      | Inr ((key, _), r1) \<Rightarrow>
          (case secretBoxOpen crypto (nonce encryptedData @ ciphertext encryptedData) key of
             Inl e \<Rightarrow> Inl e
           | Inr plaintext \<Rightarrow> Inr (plaintext, r1)))"

text \<open>
  \<^verbatim>\<open>encryptedDataToBase64\<close>: every array becomes the string of its bytes
  (\<^verbatim>\<open>String.fromCharCode\<close>), then \<^verbatim>\<open>btoa\<close> of it.
\<close>

definition arrayToBase64 :: "Uint8Array \<Rightarrow> js_error + jsstring" where
  "arrayToBase64 arr = btoa (map ucast arr)"

definition encryptedDataToBase64 :: "EncryptedData \<Rightarrow> js_error + EncryptedDataBase64" where
  "encryptedDataToBase64 data =
     (case arrayToBase64 (ciphertext data) of
        Inl e \<Rightarrow> Inl e
      | Inr c \<Rightarrow>
          (case arrayToBase64 (nonce data) of
             Inl e \<Rightarrow> Inl e
           | Inr n \<Rightarrow>
               (case arrayToBase64 (salt data) of
                  Inl e \<Rightarrow> Inl e
                | Inr sl \<Rightarrow> Inr \<lparr>ciphertext = c, nonce = n, salt = sl\<rparr>)))"

text \<open>
  \<^verbatim>\<open>base64ToEncryptedData\<close> receives whatever value the caller holds (the result
  of \<^verbatim>\<open>JSON.parse\<close> in \<^verbatim>\<open>decryptFromJSON\<close>): it reads the three properties in
  the order ciphertext, nonce, salt, and passes each to \<^verbatim>\<open>atob\<close>, which converts its
  argument to a string first (numbers as \<open>num\<close> prints them; the conversion of an object
  can throw). \<^verbatim>\<open>stringToBytes\<close> stores every code unit in a byte.
\<close>

definition stringToBytes :: "jsstring \<Rightarrow> Uint8Array" where
  "stringToBytes s = map ucast s"

definition decode_property ::
  "(jsstring \<Rightarrow> jsstring) \<Rightarrow> jsvalue \<Rightarrow> jsstring \<Rightarrow> js_error + Uint8Array" where
  "decode_property num data k =
     (case get_property data k of
        Inl e \<Rightarrow> Inl e
      | Inr v \<Rightarrow>
          (case js_ToString num v of
             Inl e \<Rightarrow> Inl e
           | Inr str \<Rightarrow>
               (case atob str of Inl e \<Rightarrow> Inl e | Inr s \<Rightarrow> Inr (stringToBytes s))))"

definition base64ToEncryptedData ::
  "(jsstring \<Rightarrow> jsstring) \<Rightarrow> jsvalue \<Rightarrow> js_error + EncryptedData" where
  "base64ToEncryptedData num data =
     (case decode_property num data (js ''ciphertext'') of
        Inl e \<Rightarrow> Inl e
      | Inr c \<Rightarrow>
          (case decode_property num data (js ''nonce'') of
             Inl e \<Rightarrow> Inl e
           | Inr n \<Rightarrow>
               (case decode_property num data (js ''salt'') of
                  Inl e \<Rightarrow> Inl e
                | Inr sl \<Rightarrow> Inr \<lparr>ciphertext = c, nonce = n, salt = sl\<rparr>)))"

text \<open>An \<^verbatim>\<open>EncryptedDataBase64\<close> as the object it is at run time.\<close>

definition object_of :: "EncryptedDataBase64 \<Rightarrow> jsvalue" where
  "object_of b =
     JObject [(js ''ciphertext'', JString (ciphertext b)), (js ''nonce'', JString (nonce b)),
              (js ''salt'', JString (salt b))]"



text \<open>
  \<^verbatim>\<open>decryptFromJSON\<close> returns a string: one character per decrypted byte
  (\<^verbatim>\<open>String.fromCharCode(decrypted[i])\<close>). Its parameter \<open>num\<close> is the runtime's
  printing of numbers, which \<^verbatim>\<open>atob\<close> applies to a member that is a number.
\<close>

definition decryptFromJSON ::
  "'k Crypto option \<Rightarrow> (jsstring \<Rightarrow> jsstring) \<Rightarrow> jsstring \<Rightarrow> jsstring \<Rightarrow> rng
    \<Rightarrow> js_error + (jsstring \<times> rng)" where
  "decryptFromJSON crypto num jsonString password r =
     (case JSON_parse jsonString of
        Inl e \<Rightarrow> Inl e
      | Inr parsed \<Rightarrow>
          (case base64ToEncryptedData num parsed of
             Inl e \<Rightarrow> Inl e
           | Inr encrypted \<Rightarrow>
               (case decrypt crypto encrypted password r of
                  Inl e \<Rightarrow> Inl e
                | Inr (decrypted, r') \<Rightarrow> Inr (map ucast decrypted, r'))))"

section \<open>The calls into the provider\<close>

text \<open>
  The three sequences of provider calls the module makes, each as one function of the
  provider: the key derivation of \<^verbatim>\<open>deriveKey\<close> (import the password, derive, export),
  the sealing of \<^verbatim>\<open>secretBox\<close> and the opening of \<^verbatim>\<open>secretBoxOpen\<close> (import the
  key, then encrypt or decrypt under the 12-byte IV).
\<close>

definition pbkdf2_raw :: "'k SubtleCrypto \<Rightarrow> Uint8Array \<Rightarrow> Uint8Array \<Rightarrow> js_error + Uint8Array" where
  "pbkdf2_raw s passwordData usedSalt =
     (case subtle_importKey s ''raw'' passwordData ''PBKDF2'' False [''deriveKey''] of
        Inl e \<Rightarrow> Inl e
      | Inr baseKey \<Rightarrow>
          (case subtle_deriveKey s
                  \<lparr>pbkdf2_name = ''PBKDF2'', pbkdf2_hash = ''SHA-256'',
                   pbkdf2_salt = usedSalt, pbkdf2_iterations = 100000\<rparr>
                  baseKey \<lparr>aes_name = ''AES-GCM'', aes_length = 256\<rparr>
                  True [''encrypt'', ''decrypt''] of
             Inl e \<Rightarrow> Inl e
           | Inr derivedKey \<Rightarrow> subtle_exportKey s ''raw'' derivedKey))"

definition gcm_seal ::
  "'k SubtleCrypto \<Rightarrow> Uint8Array \<Rightarrow> Uint8Array \<Rightarrow> Uint8Array \<Rightarrow> js_error + Uint8Array" where
  "gcm_seal s key iv plaintext =
     (case subtle_importKey s ''raw'' key ''AES-GCM'' False [''encrypt''] of
        Inl e \<Rightarrow> Inl e
      | Inr cryptoKey \<Rightarrow>
          subtle_encrypt s \<lparr>gcm_name = ''AES-GCM'', gcm_iv = iv\<rparr> cryptoKey plaintext)"

definition gcm_open ::
  "'k SubtleCrypto \<Rightarrow> Uint8Array \<Rightarrow> Uint8Array \<Rightarrow> Uint8Array \<Rightarrow> js_error + Uint8Array" where
  "gcm_open s key iv encrypted =
     (case subtle_importKey s ''raw'' key ''AES-GCM'' False [''decrypt''] of
        Inl e \<Rightarrow> Inl e
      | Inr cryptoKey \<Rightarrow>
          subtle_decrypt s \<lparr>gcm_name = ''AES-GCM'', gcm_iv = iv\<rparr> cryptoKey encrypted)"

text \<open>
  What the module relies on from the provider. \<open>kdf_ok\<close>: PBKDF2 with the module's
  parameters yields the 256 bits it was asked for. \<open>aead_ok\<close>: under a 256-bit key and
  a 96-bit IV, AES-GCM opens what it sealed.
\<close>

definition kdf_ok :: "'k SubtleCrypto \<Rightarrow> bool" where
  "kdf_ok s = (\<forall>pw sl. \<exists>raw. pbkdf2_raw s pw sl = Inr raw \<and> length raw = 32)"

definition aead_ok :: "'k SubtleCrypto \<Rightarrow> bool" where
  "aead_ok s =
     (\<forall>key iv p. length key = 32 \<and> length iv = 12 \<longrightarrow>
        (\<exists>ct. gcm_seal s key iv p = Inr ct \<and> gcm_open s key iv ct = Inr p))"


text \<open>
  Two more properties of a provider. \<open>exports_requested_length\<close>: the exported bytes of
  a derived key are as many as the bits that were asked for. \<open>same_slow_pbkdf2\<close>: two
  providers differ at most in what key derivation gives outside PBKDF2 over SHA-256
  with at least 100000 iterations.
\<close>

definition exports_requested_length :: "'k SubtleCrypto \<Rightarrow> bool" where
  "exports_requested_length s =
     (\<forall>p bk a ext us dk raw.
        subtle_deriveKey s p bk a ext us = Inr dk \<and> subtle_exportKey s ''raw'' dk = Inr raw \<longrightarrow>
        length raw = aes_length a div 8)"

definition same_slow_pbkdf2 :: "'k SubtleCrypto \<Rightarrow> 'k SubtleCrypto \<Rightarrow> bool" where
  "same_slow_pbkdf2 s1 s2 =
     (subtle_importKey s1 = subtle_importKey s2 \<and> subtle_exportKey s1 = subtle_exportKey s2 \<and>
      (\<forall>p bk a ext us.
         pbkdf2_name p = ''PBKDF2'' \<and> pbkdf2_hash p = ''SHA-256'' \<and>
         100000 \<le> pbkdf2_iterations p \<longrightarrow>
         subtle_deriveKey s1 p bk a ext us = subtle_deriveKey s2 p bk a ext us))"


section \<open>A small provider\<close>

text \<open>
  A provider simple enough to run by hand: the key handle is the raw key, the derived
  key repeats the byte sum of password and salt, the cipher masks every byte with the
  byte sum of the key and appends 16 copies of a checksum of plaintext, key and IV.
\<close>

definition toy_tag :: "Uint8Array \<Rightarrow> Uint8Array \<Rightarrow> Uint8Array \<Rightarrow> Uint8Array" where
  "toy_tag k iv p = replicate 16 (sum_list p + sum_list k + sum_list iv)"

definition toy_subtle :: "Uint8Array SubtleCrypto" where
  "toy_subtle =
     \<lparr>subtle_importKey = (\<lambda>fmt raw alg ext us. Inr raw),
      subtle_deriveKey =
        (\<lambda>p bk a ext us. Inr (replicate (aes_length a div 8) (sum_list bk + sum_list (pbkdf2_salt p)))),
      subtle_exportKey = (\<lambda>fmt k. Inr k),
      subtle_encrypt =
        (\<lambda>a k p. Inr (map (\<lambda>b. b XOR sum_list k) p @ toy_tag k (gcm_iv a) p)),
      subtle_decrypt =
        (\<lambda>a k c.
           if length c < 16 then Inl OperationError
           else (case map (\<lambda>b. b XOR sum_list k) (take (length c - 16) c) of
                   p \<Rightarrow> if drop (length c - 16) c = toy_tag k (gcm_iv a) p then Inr p
                        else Inl OperationError))\<rparr>"

definition toy_crypto :: "Uint8Array Crypto option" where
  "toy_crypto = Some \<lparr>subtle = Some toy_subtle\<rparr>"

definition zero_rng :: rng where
  "zero_rng = (\<lambda>i. 0)"

text \<open>
  The small provider, but refusing every key derivation other than PBKDF2 over SHA-256
  with at least 100000 iterations.
\<close>

definition strict_subtle :: "Uint8Array SubtleCrypto" where
  "strict_subtle =
     toy_subtle
       \<lparr>subtle_deriveKey :=
          (\<lambda>p bk a ext us.
             if pbkdf2_name p = ''PBKDF2'' \<and> pbkdf2_hash p = ''SHA-256'' \<and>
                100000 \<le> pbkdf2_iterations p
             then subtle_deriveKey toy_subtle p bk a ext us
             else Inl NotSupportedError)\<rparr>"

definition strict_crypto :: "Uint8Array Crypto option" where
  "strict_crypto = Some \<lparr>subtle = Some strict_subtle\<rparr>"



section \<open>Example inputs\<close>

text \<open>
  The texts \<^verbatim>\<open>{}\<close>, \<^verbatim>\<open>{"ciphertext":null}\<close>, \<^verbatim>\<open>not json at all\<close> and
  \<^verbatim>\<open>{"ciphertext":null,"nonce":null,"salt":null}\<close>, and a printing of numbers for
  closed examples (none of them holds a number).
\<close>

definition text_empty_object :: jsstring where
  "text_empty_object = js ''{}''"

definition text_null_ciphertext :: jsstring where
  "text_null_ciphertext = 0x7B # QuoteJSONString (js ''ciphertext'') @ js '':null}''"

definition text_not_json :: jsstring where
  "text_not_json = js ''not json at all''"

definition text_all_null :: jsstring where
  "text_all_null =
     0x7B # QuoteJSONString (js ''ciphertext'') @ js '':null,'' @
     QuoteJSONString (js ''nonce'') @ js '':null,'' @
     QuoteJSONString (js ''salt'') @ js '':null}''"

definition as_written :: "jsstring \<Rightarrow> jsstring" where
  "as_written lexeme = lexeme"

text \<open>A member is missing when reading it gives \<^verbatim>\<open>undefined\<close>.\<close>

definition missing_member :: "jsvalue \<Rightarrow> bool" where
  "missing_member v =
     (get_property v (js ''ciphertext'') = Inr JUndefined \<or>
      get_property v (js ''nonce'') = Inr JUndefined \<or>
      get_property v (js ''salt'') = Inr JUndefined)"

text \<open>A member is a string that \<^verbatim>\<open>atob\<close> rejects.\<close>

definition bad_base64_member :: "jsvalue \<Rightarrow> bool" where
  "bad_base64_member v =
     (\<exists>k \<in> {js ''ciphertext'', js ''nonce'', js ''salt''}.
        \<exists>s. get_property v k = Inr (JString s) \<and> atob s = Inl InvalidCharacterError)"

text \<open>The text \<^verbatim>\<open>{"ciphertext":"@@@@","nonce":"","salt":""}\<close>.\<close>

definition text_bad_base64 :: jsstring where
  "text_bad_base64 =
     0x7B # QuoteJSONString (js ''ciphertext'') @ 0x3A # QuoteJSONString (js ''@@@@'') @
     0x2C # QuoteJSONString (js ''nonce'') @ 0x3A # QuoteJSONString [] @
     0x2C # QuoteJSONString (js ''salt'') @ 0x3A # QuoteJSONString [] @ [0x7D]"

text \<open>
  The first two statements of \<^verbatim>\<open>decryptFromJSON\<close>, \<^verbatim>\<open>JSON.parse\<close> and
  \<^verbatim>\<open>base64ToEncryptedData\<close>, are the parsing of a serialized envelope: what fails
  there fails before the password is looked at.
\<close>

definition parse_envelope :: "(jsstring \<Rightarrow> jsstring) \<Rightarrow> jsstring \<Rightarrow> js_error + Uint8Array Envelope" where
  "parse_envelope num jsonString =
     (case JSON_parse jsonString of
        Inl e \<Rightarrow> Inl e
      | Inr parsed \<Rightarrow> base64ToEncryptedData num parsed)"

text \<open>
  The text \<^verbatim>\<open>{"ciphertext":{"toString":0}}\<close>: its first member is an object that
  cannot be converted to a string.
\<close>

definition text_toString_member :: jsstring where
  "text_toString_member =
     0x7B # QuoteJSONString (js ''ciphertext'') @ 0x3A #
     0x7B # QuoteJSONString (js ''toString'') @ js '':0}}''"

text \<open>Every member the module reads can be converted to a string.\<close>

definition members_print :: "(jsstring \<Rightarrow> jsstring) \<Rightarrow> jsvalue \<Rightarrow> bool" where
  "members_print num v =
     list_all
       (\<lambda>k. case get_property v k of
              Inl e \<Rightarrow> True
            | Inr x \<Rightarrow> (case js_ToString num x of Inl e \<Rightarrow> False | Inr s \<Rightarrow> True))
       [js ''ciphertext'', js ''nonce'', js ''salt'']"

section \<open>Properties\<close>

lemma length_getRandomValues: "length (fst (getRandomValues n r)) = n"
  by (simp add: getRandomValues_def)

lemma crypto_subtle_Some: "crypto_subtle crypto = Some s \<Longrightarrow> \<exists>c. crypto = Some c"
  by (cases crypto) (simp_all add: crypto_subtle_def)

lemma deriveKey_given:
  "crypto_subtle crypto = Some s \<Longrightarrow>
   deriveKey crypto pw (Some x) r =
     (case pbkdf2_raw s (TextEncoder_encode pw) x of
        Inl e \<Rightarrow> Inl e | Inr k \<Rightarrow> Inr ((k, x), r))"
  by (simp add: deriveKey_def pbkdf2_raw_def ALGORITHM_def HASH_def ITERATIONS_def
      KEY_LENGTH_def split: sum.splits)

lemma deriveKey_fresh:
  "crypto_subtle crypto = Some s \<Longrightarrow>
   deriveKey crypto pw None r =
     (case pbkdf2_raw s (TextEncoder_encode pw) (fst (getRandomValues SALT_LENGTH r)) of
        Inl e \<Rightarrow> Inl e
      | Inr k \<Rightarrow>
          Inr ((k, fst (getRandomValues SALT_LENGTH r)), snd (getRandomValues SALT_LENGTH r)))"
  by (simp add: deriveKey_def pbkdf2_raw_def ALGORITHM_def HASH_def ITERATIONS_def
      KEY_LENGTH_def split: sum.splits prod.splits)

lemma secretBox_given:
  "crypto_subtle crypto = Some s \<Longrightarrow>
   secretBox crypto p key (Some n) r =
     (case gcm_seal s key (take 12 n) p of
        Inl e \<Rightarrow> Inl e | Inr ct \<Rightarrow> Inr (n @ ct, r))"
  by (simp add: secretBox_def gcm_seal_def split: sum.splits)

lemma secretBoxOpen_eq:
  "crypto_subtle crypto = Some s \<Longrightarrow>
   secretBoxOpen crypto boxed key = gcm_open s key (take 12 (take 24 boxed)) (drop 24 boxed)"
  by (simp add: secretBoxOpen_def gcm_open_def NONCE_LENGTH_def Let_def split: sum.splits)

text \<open>What \<^verbatim>\<open>encrypt\<close> and \<^verbatim>\<open>decrypt\<close> compute, in terms of the provider calls.\<close>

definition fresh_salt :: "rng \<Rightarrow> Uint8Array" where
  "fresh_salt r = fst (getRandomValues SALT_LENGTH r)"

definition fresh_nonce :: "rng \<Rightarrow> Uint8Array" where
  "fresh_nonce r = fst (getRandomValues NONCE_LENGTH (snd (getRandomValues SALT_LENGTH r)))"

definition rng_after_encrypt :: "rng \<Rightarrow> rng" where
  "rng_after_encrypt r = snd (getRandomValues NONCE_LENGTH (snd (getRandomValues SALT_LENGTH r)))"

lemma length_fresh_salt: "length (fresh_salt r) = 16"
  by (simp add: fresh_salt_def SALT_LENGTH_def getRandomValues_def)

lemma length_fresh_nonce: "length (fresh_nonce r) = 24"
  by (simp add: fresh_nonce_def NONCE_LENGTH_def getRandomValues_def)

lemma encrypt_eq:
  assumes "crypto_subtle crypto = Some s"
  shows "encrypt crypto P W r =
     (case pbkdf2_raw s (TextEncoder_encode W) (fresh_salt r) of
        Inl e \<Rightarrow> Inl e
      | Inr k \<Rightarrow>
          (case gcm_seal s k (take 12 (fresh_nonce r)) (plaintext_data P) of
             Inl e \<Rightarrow> Inl e
           | Inr ct \<Rightarrow>
               Inr (\<lparr>ciphertext = ct, nonce = fresh_nonce r, salt = fresh_salt r\<rparr>,
                    rng_after_encrypt r)))"
proof -
  obtain c where c: "crypto = Some c"
    using crypto_subtle_Some [OF assms] by blast
  have sub: "crypto_subtle (Some c) = Some s"
    using assms c by simp
  have l: "length (fresh_nonce r) = NONCE_LENGTH"
    by (simp add: length_fresh_nonce NONCE_LENGTH_def)
  show ?thesis
  proof (cases "pbkdf2_raw s (TextEncoder_encode W) (fresh_salt r)")
    case (Inl e)
    then show ?thesis
      unfolding c by (simp add: encrypt_def deriveKey_fresh [OF sub] fresh_salt_def)
  next
    case (Inr k)
    then have d: "deriveKey (Some c) W None r =
        Inr ((k, fresh_salt r), snd (getRandomValues SALT_LENGTH r))"
      by (simp add: deriveKey_fresh [OF sub] fresh_salt_def)
    obtain n r2 where g: "getRandomValues NONCE_LENGTH (snd (getRandomValues SALT_LENGTH r)) = (n, r2)"
      by (cases "getRandomValues NONCE_LENGTH (snd (getRandomValues SALT_LENGTH r))")
    then have n: "n = fresh_nonce r" and r2: "r2 = rng_after_encrypt r"
      by (simp_all add: fresh_nonce_def rng_after_encrypt_def)
    show ?thesis
      unfolding c using Inr l
      by (simp add: encrypt_def d g secretBox_given [OF sub] n r2 split: sum.splits)
  qed
qed

lemma decrypt_eq:
  assumes "crypto_subtle crypto = Some s"
  shows "decrypt crypto e W r =
     (case pbkdf2_raw s (TextEncoder_encode W) (salt e) of
        Inl err \<Rightarrow> Inl err
      | Inr k \<Rightarrow>
          (case gcm_open s k (take 12 (take 24 (nonce e @ ciphertext e)))
                  (drop 24 (nonce e @ ciphertext e)) of
             Inl err \<Rightarrow> Inl err
           | Inr p \<Rightarrow> Inr (p, r)))"
  by (simp add: decrypt_def deriveKey_given [OF assms] secretBoxOpen_eq [OF assms]
      split: sum.splits)

lemma encrypt_unavailable:
  "crypto_subtle crypto = None \<Longrightarrow> encrypt crypto P W r = Inl WebCryptoNotAvailable"
  by (cases crypto) (simp_all add: encrypt_def deriveKey_def)

lemma decrypt_unavailable:
  "crypto_subtle crypto = None \<Longrightarrow> decrypt crypto e W r = Inl WebCryptoNotAvailable"
  by (simp add: decrypt_def deriveKey_def)

subsection \<open>The small provider meets the contract\<close>

lemma toy_crypto_subtle: "crypto_subtle toy_crypto = Some toy_subtle"
  by (simp add: toy_crypto_def crypto_subtle_def)

lemma toy_pbkdf2_raw:
  "pbkdf2_raw toy_subtle pw sl = Inr (replicate 32 (sum_list pw + sum_list sl))"
  by (simp add: pbkdf2_raw_def toy_subtle_def)

lemma toy_kdf_ok: "kdf_ok toy_subtle"
  by (simp add: kdf_ok_def toy_pbkdf2_raw)

lemma toy_gcm_seal:
  "gcm_seal toy_subtle k iv p = Inr (map (\<lambda>b. b XOR sum_list k) p @ toy_tag k iv p)"
  by (simp add: gcm_seal_def toy_subtle_def)

lemma toy_gcm_open:
  "gcm_open toy_subtle k iv c =
     (if length c < 16 then Inl OperationError
      else if drop (length c - 16) c =
              toy_tag k iv (map (\<lambda>b. b XOR sum_list k) (take (length c - 16) c))
           then Inr (map (\<lambda>b. b XOR sum_list k) (take (length c - 16) c))
           else Inl OperationError)"
  by (simp add: gcm_open_def toy_subtle_def)

lemma xor_mask_twice: "map ((\<lambda>b. b XOR m) \<circ> (\<lambda>b. b XOR (m::byte))) p = p"
  by (induction p) (simp_all add: xor.assoc)

lemma length_toy_tag: "length (toy_tag k iv p) = 16"
  by (simp add: toy_tag_def)

lemma toy_aead_ok: "aead_ok toy_subtle"
  unfolding aead_ok_def toy_gcm_seal toy_gcm_open
  by (simp add: length_toy_tag xor_mask_twice)


subsection \<open>Round trip\<close>

lemma boxed_iv: "length n = 24 \<Longrightarrow> take 12 (take 24 (n @ c)) = take 12 n"
  by simp

lemma boxed_encrypted: "length n = 24 \<Longrightarrow> drop 24 (n @ c) = c"
  by simp

lemma decrypt_eq24:
  assumes "crypto_subtle crypto = Some s" and "length (nonce e) = 24"
  shows "decrypt crypto e W r =
     (case pbkdf2_raw s (TextEncoder_encode W) (salt e) of
        Inl err \<Rightarrow> Inl err
      | Inr k \<Rightarrow>
          (case gcm_open s k (take 12 (nonce e)) (ciphertext e) of
             Inl err \<Rightarrow> Inl err
           | Inr p \<Rightarrow> Inr (p, r)))"
  unfolding decrypt_eq [OF assms(1)] boxed_iv [OF assms(2)] boxed_encrypted [OF assms(2)] ..

lemma encrypt_then_decrypt:
  assumes "crypto_subtle crypto = Some s" and "kdf_ok s" and "aead_ok s"
  shows "\<exists>env r'. encrypt crypto P W r = Inr (env, r') \<and>
           decrypt crypto env W r2 = Inr (plaintext_data P, r2)"
proof -
  obtain k where k: "pbkdf2_raw s (TextEncoder_encode W) (fresh_salt r) = Inr k"
    and lk: "length k = 32"
    using assms(2) unfolding kdf_ok_def by blast
  have liv: "length (take 12 (fresh_nonce r)) = 12"
    by (simp add: length_fresh_nonce)
  obtain ct where ct: "gcm_seal s k (take 12 (fresh_nonce r)) (plaintext_data P) = Inr ct"
    and op: "gcm_open s k (take 12 (fresh_nonce r)) ct = Inr (plaintext_data P)"
    using assms(3) lk liv unfolding aead_ok_def by blast
  let ?env = "\<lparr>ciphertext = ct, nonce = fresh_nonce r, salt = fresh_salt r\<rparr>"
  have e: "encrypt crypto P W r = Inr (?env, rng_after_encrypt r)"
    by (simp add: encrypt_eq [OF assms(1)] k ct)
  have d: "decrypt crypto ?env W r2 = Inr (plaintext_data P, r2)"
    by (simp add: decrypt_eq24 [OF assms(1)] length_fresh_nonce k op)
  show ?thesis
    using e d by blast
qed

text \<open>
  C1. For every plaintext (text or bytes, the empty one too), every password and every
  state of the entropy source, on a provider that derives 256-bit keys and whose AES-GCM
  opens what it sealed, \<^verbatim>\<open>encrypt\<close> returns an envelope, and \<^verbatim>\<open>decrypt\<close> of
  that envelope with the same password returns exactly the bytes that were sealed.
\<close>

theorem encrypt_decrypt_roundtrip:
  assumes "crypto_subtle crypto = Some s" and "kdf_ok s" and "aead_ok s"
  shows "\<exists>env r'. encrypt crypto P W r = Inr (env, r') \<and>
           decrypt crypto env W r2 = Inr (plaintext_data P, r2)"
  by (rule encrypt_then_decrypt [OF assms])

theorem encrypt_decrypt_roundtrip_witness:
  "(\<exists>env r'. encrypt toy_crypto (IsBytes []) (js ''pw'') zero_rng = Inr (env, r') \<and>
       decrypt toy_crypto env (js ''pw'') zero_rng = Inr ([], zero_rng)) \<and>
   (\<exists>env r'. encrypt toy_crypto (IsBytes [1, 2, 255]) (js ''pw'') zero_rng = Inr (env, r') \<and>
       decrypt toy_crypto env (js ''pw'') zero_rng = Inr ([1, 2, 255], zero_rng))"
  using encrypt_decrypt_roundtrip [OF toy_crypto_subtle toy_kdf_ok toy_aead_ok,
      of "IsBytes []" "js ''pw''" zero_rng zero_rng]
    encrypt_decrypt_roundtrip [OF toy_crypto_subtle toy_kdf_ok toy_aead_ok,
      of "IsBytes [1, 2, 255]" "js ''pw''" zero_rng zero_rng]
  by (simp add: plaintext_data_def)

subsection \<open>Lengths of salt and nonce\<close>

lemma encrypt_lengths:
  assumes "encrypt crypto P W r = Inr (env, r')"
  shows "length (salt env) = 16 \<and> length (nonce env) = 24"
proof (cases "crypto_subtle crypto")
  case None
  then show ?thesis
    using assms by (simp add: encrypt_unavailable)
next
  case (Some s)
  then show ?thesis
    using assms
    by (auto simp: encrypt_eq [OF Some] length_fresh_salt length_fresh_nonce split: sum.splits)
qed

text \<open>
  C5. Whenever \<^verbatim>\<open>encrypt\<close> returns an envelope, on any provider, for any plaintext
  and password, its salt has exactly 16 bytes and its nonce exactly 24 bytes.
\<close>

theorem encrypt_salt_nonce_lengths:
  assumes "encrypt crypto P W r = Inr (env, r')"
  shows "length (salt env) = 16 \<and> length (nonce env) = 24"
  by (rule encrypt_lengths [OF assms])

theorem encrypt_salt_nonce_lengths_witness:
  "\<exists>env r'. encrypt toy_crypto (IsString (js ''poem'')) (js ''pw'') zero_rng = Inr (env, r') \<and>
     length (salt env) = 16 \<and> length (nonce env) = 24"
proof -
  obtain env r' where e: "encrypt toy_crypto (IsString (js ''poem'')) (js ''pw'') zero_rng = Inr (env, r')"
    by (simp add: encrypt_eq [OF toy_crypto_subtle] toy_pbkdf2_raw toy_gcm_seal)
  show ?thesis
    using e encrypt_salt_nonce_lengths [OF e] by blast
qed

subsection \<open>The trailing nonce bytes\<close>

text \<open>
  C10. Two envelopes with 24-byte nonces that agree on ciphertext, salt and the first 12
  nonce bytes decrypt to the same outcome under every password, on every provider:
  nonce bytes 12 to 23 never reach the cipher.
\<close>

theorem decrypt_ignores_nonce_tail:
  assumes "length (nonce e) = 24" and "length (nonce e') = 24"
    and "take 12 (nonce e') = take 12 (nonce e)"
    and "ciphertext e' = ciphertext e" and "salt e' = salt e"
  shows "decrypt crypto e' W r = decrypt crypto e W r"
proof (cases "crypto_subtle crypto")
  case None
  then show ?thesis
    by (simp add: decrypt_unavailable)
next
  case (Some s)
  show ?thesis
    unfolding decrypt_eq24 [OF Some assms(1)] decrypt_eq24 [OF Some assms(2)] assms(3,4,5) ..
qed

theorem decrypt_ignores_nonce_tail_witness:
  "\<exists>env r'. encrypt toy_crypto (IsBytes [7, 8, 9]) (js ''pw'') zero_rng = Inr (env, r') \<and>
     decrypt toy_crypto (env\<lparr>nonce := take 12 (nonce env) @ replicate 12 255\<rparr>) (js ''pw'') zero_rng
       = decrypt toy_crypto env (js ''pw'') zero_rng \<and>
     decrypt toy_crypto env (js ''pw'') zero_rng = Inr ([7, 8, 9], zero_rng)"
proof -
  obtain env r' where e: "encrypt toy_crypto (IsBytes [7, 8, 9]) (js ''pw'') zero_rng = Inr (env, r')"
    and d: "decrypt toy_crypto env (js ''pw'') zero_rng = Inr ([7, 8, 9], zero_rng)"
    using encrypt_then_decrypt [OF toy_crypto_subtle toy_kdf_ok toy_aead_ok,
      of "IsBytes [7, 8, 9]" "js ''pw''" zero_rng zero_rng]
    by (auto simp: plaintext_data_def)
  have l: "length (nonce env) = 24"
    using encrypt_lengths [OF e] by simp
  have "decrypt toy_crypto (env\<lparr>nonce := take 12 (nonce env) @ replicate 12 255\<rparr>) (js ''pw'') zero_rng
      = decrypt toy_crypto env (js ''pw'') zero_rng"
    by (rule decrypt_ignores_nonce_tail) (simp_all add: l)
  then show ?thesis
    using e d by blast
qed

subsection \<open>The envelope codec\<close>

lemma index_of_nth: "distinct xs \<Longrightarrow> n < length xs \<Longrightarrow> index_of (xs ! n) xs = Some n"
proof (induction xs arbitrary: n)
  case Nil
  then show ?case by simp
next
  case (Cons x xs)
  then show ?case by (cases n) auto
qed

lemma distinct_b64_alphabet: "distinct b64_alphabet"
  by (simp add: b64_alphabet_def js_def)

lemma length_b64_alphabet: "length b64_alphabet = 64"
  by (simp add: b64_alphabet_def js_def)

lemma b64_value_char: "n < 64 \<Longrightarrow> b64_value (b64_char n) = Some n"
  by (simp add: b64_value_def b64_char_def index_of_nth distinct_b64_alphabet length_b64_alphabet)

lemma b64_alphabet_plain:
  "list_all (\<lambda>u. \<not> is_ascii_whitespace u \<and> u \<noteq> b64_pad) b64_alphabet"
  by (simp add: b64_alphabet_def js_def is_ascii_whitespace_def b64_pad_def)

lemma b64_char_plain:
  assumes "n < 64"
  shows "\<not> is_ascii_whitespace (b64_char n)" and "b64_char n \<noteq> b64_pad"
proof -
  have "b64_char n \<in> set b64_alphabet"
    using assms by (simp add: b64_char_def length_b64_alphabet)
  then show "\<not> is_ascii_whitespace (b64_char n)" and "b64_char n \<noteq> b64_pad"
    using b64_alphabet_plain by (auto simp: list_all_iff)
qed

lemma pad_not_ws: "\<not> is_ascii_whitespace b64_pad"
  by (simp add: is_ascii_whitespace_def b64_pad_def)

lemma sextet_1: "a < 256 \<Longrightarrow> a div 4 < (64::nat)"
  by simp

lemma sextet_2: "b < 256 \<Longrightarrow> a mod 4 * 16 + b div 16 < (64::nat)"
  by arith

lemma sextet_3: "c < 256 \<Longrightarrow> b mod 16 * 4 + c div 64 < (64::nat)"
  by arith

lemma sextet_4: "c mod 64 < (64::nat)"
  by simp

lemma sextet_2_last: "a mod 4 * 16 < (64::nat)"
  by arith

lemma sextet_3_last: "b mod 16 * 4 < (64::nat)"
  by arith

lemmas sextet_bounds = sextet_1 sextet_2 sextet_3 sextet_4 sextet_2_last sextet_3_last

lemma div16: "b < 256 \<Longrightarrow> b div 16 < (16::nat)"
  by simp

lemma div64: "c < 256 \<Longrightarrow> c div 64 < (4::nat)"
  by simp

lemma join_1: "b < 256 \<Longrightarrow> a div 4 * 4 + (a mod 4 * 16 + b div 16) div 16 = (a::nat)"
  using div16 [of b] by simp

lemma join_2:
  "b < 256 \<Longrightarrow> c < 256 \<Longrightarrow>
   (a mod 4 * 16 + b div 16) mod 16 * 16 + (b mod 16 * 4 + c div 64) div 4 = (b::nat)"
  using div16 [of b] div64 [of c] by simp

lemma join_3: "c < 256 \<Longrightarrow> (b mod 16 * 4 + c div 64) mod 4 * 64 + c mod 64 = (c::nat)"
  using div64 [of c] by simp

lemma join_1_last: "a div 4 * 4 + a mod 4 * 16 div 16 = (a::nat)"
  by simp

lemma join_2_last:
  "b < 256 \<Longrightarrow> (a mod 4 * 16 + b div 16) mod 16 * 16 + b mod 16 * 4 div 4 = (b::nat)"
  using div16 [of b] by simp

lemma filter_ws_encode:
  "list_all (\<lambda>b. b < 256) bs \<Longrightarrow>
   filter (\<lambda>u. \<not> is_ascii_whitespace u) (b64_encode bs) = b64_encode bs"
  by (induction bs rule: b64_encode.induct)
     (simp_all add: b64_char_plain sextet_bounds pad_not_ws)

lemma length_b64_encode: "length (b64_encode bs) mod 4 = 0"
  by (induction bs rule: b64_encode.induct) simp_all

lemma strip_cons4:
  assumes "c4 \<noteq> b64_pad" and "length E mod 4 = 0"
  shows "strip_padding (c1 # c2 # c3 # c4 # E) = c1 # c2 # c3 # c4 # strip_padding E"
proof (cases E)
  case Nil
  then show ?thesis using assms by (simp add: strip_padding_def)
next
  case (Cons x xs)
  then have ne: "E \<noteq> []" and nb: "butlast E \<noteq> []"
    using assms(2) by (cases xs; auto)+
  have l: "length (c1 # c2 # c3 # c4 # E) mod 4 = 0"
    using assms(2) by simp
  have la: "last (c1 # c2 # c3 # c4 # E) = last E"
    using ne by simp
  have bl: "butlast (c1 # c2 # c3 # c4 # E) = c1 # c2 # c3 # c4 # butlast E"
    using ne by simp
  have la2: "last (c1 # c2 # c3 # c4 # butlast E) = last (butlast E)"
    using nb by simp
  have bl2: "butlast (c1 # c2 # c3 # c4 # butlast E) = c1 # c2 # c3 # c4 # butlast (butlast E)"
    using nb by simp
  show ?thesis
    unfolding strip_padding_def l la bl la2 bl2 using ne nb assms(2) by simp
qed

lemma strip_encode:
  "list_all (\<lambda>b. b < 256) bs \<Longrightarrow> strip_padding (b64_encode bs) = b64_nopad bs"
proof (induction bs rule: b64_encode.induct)
  case 1
  then show ?case by (simp add: strip_padding_def)
next
  case (2 a)
  then show ?case by (simp add: strip_padding_def)
next
  case (3 a b)
  then show ?case by (simp add: strip_padding_def b64_char_plain sextet_bounds)
next
  case (4 a b c bs)
  then show ?case
    by (simp add: strip_cons4 length_b64_encode b64_char_plain sextet_bounds)
qed

lemma length_nopad: "length (b64_nopad bs) mod 4 \<noteq> Suc 0"
  by (induction bs rule: b64_nopad.induct) simp_all

lemma nopad_valid:
  "list_all (\<lambda>b. b < 256) bs \<Longrightarrow> list_all (\<lambda>u. \<exists>y. b64_value u = Some y) (b64_nopad bs)"
  by (induction bs rule: b64_nopad.induct) (simp_all add: b64_value_char sextet_bounds)

lemma decode_nopad:
  "list_all (\<lambda>b. b < 256) bs \<Longrightarrow>
   b64_decode (map (\<lambda>u. the (b64_value u)) (b64_nopad bs)) = bs"
proof (induction bs rule: b64_nopad.induct)
  case 1
  then show ?case by simp
next
  case (2 a)
  then have "a < 256" by simp
  then show ?case
    by (simp add: b64_value_char sextet_bounds join_1_last del: mod_mult_self2_is_0)
next
  case (3 a b)
  then have "a < 256" and "b < 256" by simp_all
  then show ?case
    using join_1 [of b a] join_2_last [of b a]
    by (simp add: b64_value_char sextet_bounds)
next
  case (4 a b c bs)
  then have "a < 256" and "b < 256" and "c < 256" and "list_all (\<lambda>b. b < 256) bs"
    by simp_all
  then show ?case
    using "4.IH" join_1 [of b a] join_2 [of b c a] join_3 [of c b]
    by (simp add: b64_value_char sextet_bounds)
qed

lemma atob_encode:
  assumes "list_all (\<lambda>b. b < 256) bs"
  shows "atob (b64_encode bs) = Inr (map of_nat bs)"
  by (simp add: atob_def filter_ws_encode [OF assms] strip_encode [OF assms] length_nopad
      nopad_valid [OF assms] decode_nopad [OF assms])

lemma unat_byte_less: "unat (b :: byte) < 256"
  using unsigned_less [of b, where ?'a = nat] by simp

lemma unat_ucast_byte: "unat (ucast (b :: byte) :: 16 word) = unat b"
  using unat_byte_less [of b] by (simp add: unsigned_ucast_eq take_bit_nat_eq_self)

lemma ucast_ucast_byte: "ucast (ucast (b :: byte) :: 16 word) = b"
  by (rule bit_word_eqI) (simp add: bit_simps)

lemma bytes_below_256: "list_all (\<lambda>b. b < 256) (map unat (arr :: byte list))"
  by (simp add: list_all_iff unat_byte_less)

lemma arrayToBase64_eq: "arrayToBase64 arr = Inr (b64_encode (map unat arr))"
proof -
  have "unat b \<le> 255" for b :: byte
    using unat_byte_less [of b] by simp
  then have "list_all (\<lambda>u. unat u \<le> 0xFF) (map ucast arr :: jsstring)"
    by (simp add: list_all_iff unat_ucast_byte)
  then show ?thesis
    by (simp add: arrayToBase64_def btoa_def unat_ucast_byte comp_def)
qed

lemma stringToBytes_of_bytes: "stringToBytes (map (of_nat \<circ> unat) (arr :: byte list)) = arr"
  by (simp add: stringToBytes_def comp_def ucast_ucast_byte)

lemma atob_arrayToBase64:
  "arrayToBase64 arr = Inr t \<Longrightarrow> atob t = Inr (map of_nat (map unat arr))"
  using atob_encode [OF bytes_below_256 [of arr]] by (simp add: arrayToBase64_eq)

lemma decode_property_object_of:
  "decode_property num (object_of b) (js ''ciphertext'') =
     (case atob (ciphertext b) of Inl e \<Rightarrow> Inl e | Inr s \<Rightarrow> Inr (stringToBytes s))"
  "decode_property num (object_of b) (js ''nonce'') =
     (case atob (nonce b) of Inl e \<Rightarrow> Inl e | Inr s \<Rightarrow> Inr (stringToBytes s))"
  "decode_property num (object_of b) (js ''salt'') =
     (case atob (salt b) of Inl e \<Rightarrow> Inl e | Inr s \<Rightarrow> Inr (stringToBytes s))"
  by (simp_all add: decode_property_def object_of_def get_property_def js_def)

text \<open>The base64 form of an envelope.\<close>

lemma encryptedDataToBase64_eq:
  "encryptedDataToBase64 E =
     Inr \<lparr>ciphertext = b64_encode (map unat (ciphertext E)),
          nonce = b64_encode (map unat (nonce E)), salt = b64_encode (map unat (salt E))\<rparr>"
  by (simp add: encryptedDataToBase64_def arrayToBase64_eq)

lemma base64ToEncryptedData_encoded:
  assumes "encryptedDataToBase64 E = Inr b"
  shows "base64ToEncryptedData num (object_of b) = Inr E"
proof -
  have b: "b = \<lparr>ciphertext = b64_encode (map unat (ciphertext E)),
          nonce = b64_encode (map unat (nonce E)), salt = b64_encode (map unat (salt E))\<rparr>"
    using assms by (simp add: encryptedDataToBase64_eq)
  show ?thesis
    unfolding b
    by (simp add: base64ToEncryptedData_def decode_property_object_of
        atob_encode [OF bytes_below_256] stringToBytes_of_bytes)
qed

text \<open>
  C8. For every envelope (three arbitrary byte sequences) \<^verbatim>\<open>encryptedDataToBase64\<close>
  returns, and \<^verbatim>\<open>base64ToEncryptedData\<close> of the object it returns is the envelope
  itself, byte for byte. The serialized fields are a function of the envelope alone: no
  entropy and no state enters.
\<close>

theorem codec_roundtrip:
  "\<exists>b. encryptedDataToBase64 E = Inr b \<and> base64ToEncryptedData num (object_of b) = Inr E"
  using base64ToEncryptedData_encoded [of E] by (simp add: encryptedDataToBase64_eq)

subsection \<open>JSON text of an envelope\<close>











subsection \<open>The JSON wrappers\<close>














subsection \<open>Malformed input\<close>

lemma atob_error: "atob s = Inl e \<Longrightarrow> e = InvalidCharacterError"
  by (auto simp: atob_def split: if_splits)

lemma JSON_parse_error: "JSON_parse txt = Inl e \<Longrightarrow> e = SyntaxError"
  by (auto simp: JSON_parse_def split: option.splits if_splits)

lemma collect_results_error:
  "collect_results xs = Inl e \<Longrightarrow> \<exists>x \<in> set xs. x = Inl e"
  by (induction xs) (auto split: sum.splits)

lemma js_ToString_error: "js_ToString num v = Inl e \<Longrightarrow> e = TypeError"
proof (induction num v arbitrary: e rule: js_ToString.induct)
  case (6 num vs)
  then obtain x where x: "x \<in> set vs" and "x \<noteq> JUndefined \<and> x \<noteq> JNull"
    and "js_ToString num x = Inl e"
    by (auto split: sum.splits if_splits dest!: collect_results_error)
  then show ?case
    using "6.IH" [of x e] by simp
qed (auto split: if_splits)

lemma decode_property_error:
  "decode_property num v k = Inl e \<Longrightarrow> e = TypeError \<or> e = InvalidCharacterError"
  by (auto simp: decode_property_def get_property_def dest: atob_error js_ToString_error
      split: sum.splits jsvalue.splits)

lemma base64ToEncryptedData_error:
  "base64ToEncryptedData num v = Inl e \<Longrightarrow> e = TypeError \<or> e = InvalidCharacterError"
  by (auto simp: base64ToEncryptedData_def dest: decode_property_error split: sum.splits)

lemma atob_undefined: "atob (js ''undefined'') = Inl InvalidCharacterError"
  by (simp add: atob_def js_def is_ascii_whitespace_def strip_padding_def b64_pad_def)

lemma atob_null: "atob (js ''null'') = Inr [0x9E, 0xE9, 0x65]"
  by (simp add: atob_def js_def is_ascii_whitespace_def strip_padding_def b64_pad_def
      b64_value_def b64_alphabet_def)

lemma decode_property_missing:
  "get_property v k = Inr JUndefined \<Longrightarrow> decode_property num v k = Inl InvalidCharacterError"
  by (simp add: decode_property_def atob_undefined)

lemma decode_property_bad:
  "get_property v k = Inr (JString s) \<Longrightarrow> atob s = Inl InvalidCharacterError \<Longrightarrow>
   decode_property num v k = Inl InvalidCharacterError"
  by (simp add: decode_property_def)

text \<open>
  When one of the three members cannot be decoded, \<^verbatim>\<open>base64ToEncryptedData\<close>
  throws: the error of that member, or the error of a member read before it.
\<close>

lemma base64ToEncryptedData_one_bad:
  assumes "decode_property num v (js ''ciphertext'') = Inl e1 \<or>
           decode_property num v (js ''nonce'') = Inl e1 \<or>
           decode_property num v (js ''salt'') = Inl e1"
  shows "\<exists>e. base64ToEncryptedData num v = Inl e \<and> (e = TypeError \<or> e = InvalidCharacterError)"
proof -
  have "\<exists>e. base64ToEncryptedData num v = Inl e"
    using assms by (auto simp: base64ToEncryptedData_def split: sum.splits)
  then show ?thesis
    using base64ToEncryptedData_error by blast
qed

lemma missing_member_rejected:
  assumes "missing_member v"
  shows "\<exists>e. base64ToEncryptedData num v = Inl e \<and> (e = TypeError \<or> e = InvalidCharacterError)"
  using assms unfolding missing_member_def
  by (intro base64ToEncryptedData_one_bad [where ?e1.0 = InvalidCharacterError])
     (auto simp: decode_property_missing)

lemma bad_base64_member_rejected:
  assumes "bad_base64_member v"
  shows "\<exists>e. base64ToEncryptedData num v = Inl e \<and> (e = TypeError \<or> e = InvalidCharacterError)"
proof -
  obtain k s where k: "k = js ''ciphertext'' \<or> k = js ''nonce'' \<or> k = js ''salt''"
    and g: "get_property v k = Inr (JString s)" and a: "atob s = Inl InvalidCharacterError"
    using assms unfolding bad_base64_member_def by blast
  have d: "decode_property num v k = Inl InvalidCharacterError"
    by (rule decode_property_bad [OF g a])
  show ?thesis
    by (rule base64ToEncryptedData_one_bad [where ?e1.0 = InvalidCharacterError])
       (use k d in blast)
qed

text \<open>When every member read can be converted to a string, the only error is that of \<^verbatim>\<open>atob\<close>.\<close>

lemma decode_property_prints:
  assumes "members_print num v"
    and "k = js ''ciphertext'' \<or> k = js ''nonce'' \<or> k = js ''salt''"
    and "get_property v k' = Inr x"
    and "decode_property num v k = Inl e"
  shows "e = InvalidCharacterError"
proof -
  obtain y where y: "get_property v k = Inr y"
    using assms(3) by (auto simp: get_property_def split: jsvalue.splits)
  have "\<exists>s. js_ToString num y = Inr s"
    using assms(1,2) y by (auto simp: members_print_def split: sum.splits)
  then show ?thesis
    using assms(4) y by (auto simp: decode_property_def dest: atob_error split: sum.splits)
qed

lemma base64ToEncryptedData_prints:
  assumes "members_print num v" and "get_property v k' = Inr x"
    and "base64ToEncryptedData num v = Inl e"
  shows "e = InvalidCharacterError"
  using assms(3) decode_property_prints [OF assms(1) _ assms(2)]
  by (auto simp: base64ToEncryptedData_def split: sum.splits)

lemma missing_or_bad_gets_property:
  "missing_member v \<or> bad_base64_member v \<Longrightarrow> \<exists>k x. get_property v k = Inr x"
  by (auto simp: missing_member_def bad_base64_member_def)

lemma parse_empty_object: "JSON_parse text_empty_object = Inr (JObject [])"
  by (simp add: JSON_parse_def text_empty_object_def js_def skip_ws_def is_json_ws_def
      parse_value.simps)

lemma parse_not_json: "JSON_parse text_not_json = Inl SyntaxError"
  by (simp add: JSON_parse_def text_not_json_def js_def skip_ws_def is_json_ws_def
      parse_value.simps parse_literal_def is_digit_def)

lemma parse_null_ciphertext:
  "JSON_parse text_null_ciphertext = Inr (JObject [(js ''ciphertext'', JNull)])"
  by (simp add: JSON_parse_def text_null_ciphertext_def QuoteJSONString_def js_def skip_ws_def
      is_json_ws_def parse_value.simps parse_members.simps parse_literal_def is_digit_def
      is_lead_def is_trail_def)

lemma parse_all_null:
  "JSON_parse text_all_null =
     Inr (JObject [(js ''ciphertext'', JNull), (js ''nonce'', JNull), (js ''salt'', JNull)])"
  by (simp add: JSON_parse_def text_all_null_def QuoteJSONString_def js_def skip_ws_def
      is_json_ws_def parse_value.simps parse_members.simps parse_literal_def is_digit_def
      is_lead_def is_trail_def)

lemma parse_bad_base64:
  "JSON_parse text_bad_base64 =
     Inr (JObject [(js ''ciphertext'', JString (js ''@@@@'')), (js ''nonce'', JString []),
                   (js ''salt'', JString [])])"
  by (simp add: JSON_parse_def text_bad_base64_def QuoteJSONString_def js_def skip_ws_def
      is_json_ws_def parse_value.simps parse_members.simps parse_literal_def is_digit_def
      is_lead_def is_trail_def)

lemma missing_in_empty_object: "missing_member (JObject [])"
  by (simp add: missing_member_def get_property_def)

lemma missing_in_null_ciphertext: "missing_member (JObject [(js ''ciphertext'', JNull)])"
  by (simp add: missing_member_def get_property_def js_def)

lemma bad_member_example:
  "bad_base64_member (JObject [(js ''ciphertext'', JString (js ''@@@@'')),
     (js ''nonce'', JString []), (js ''salt'', JString [])])"
proof -
  have "atob (js ''@@@@'') = Inl InvalidCharacterError"
    by (simp add: atob_def js_def is_ascii_whitespace_def strip_padding_def b64_pad_def
        b64_value_def b64_alphabet_def)
  then show ?thesis
    by (simp add: bad_base64_member_def get_property_def js_def)
qed

lemma all_null_decodes:
  "base64ToEncryptedData num
     (JObject [(js ''ciphertext'', JNull), (js ''nonce'', JNull), (js ''salt'', JNull)]) =
   Inr \<lparr>ciphertext = [0x9E, 0xE9, 0x65], nonce = [0x9E, 0xE9, 0x65], salt = [0x9E, 0xE9, 0x65]\<rparr>"
proof -
  have "decode_property num
      (JObject [(js ''ciphertext'', JNull), (js ''nonce'', JNull), (js ''salt'', JNull)]) k =
      Inr [0x9E, 0xE9, 0x65]"
    if "k = js ''ciphertext'' \<or> k = js ''nonce'' \<or> k = js ''salt''" for k
    using that atob_null
    by (auto simp: decode_property_def get_property_def stringToBytes_def js_def)
  then show ?thesis
    by (simp add: base64ToEncryptedData_def)
qed

lemma parse_toString_member:
  "JSON_parse text_toString_member =
     Inr (JObject [(js ''ciphertext'', JObject [(js ''toString'', JNumber (js ''0''))])])"
  by (simp add: JSON_parse_def text_toString_member_def QuoteJSONString_def js_def skip_ws_def
      is_json_ws_def parse_value.simps parse_members.simps parse_literal_def is_digit_def
      is_lead_def is_trail_def parse_number_def parse_int_part_def parse_frac_part_def
      parse_exp_part_def parse_digits_def)

lemma toString_member_rejected:
  "base64ToEncryptedData num
     (JObject [(js ''ciphertext'', JObject [(js ''toString'', JNumber (js ''0''))])]) =
   Inl TypeError"
  by (simp add: base64ToEncryptedData_def decode_property_def get_property_def js_def)

lemma decryptFromJSON_parse_stage:
  "JSON_parse txt = Inl e \<Longrightarrow> decryptFromJSON crypto num txt W r = Inl e"
  "JSON_parse txt = Inr v \<Longrightarrow> base64ToEncryptedData num v = Inl e \<Longrightarrow>
   decryptFromJSON crypto num txt W r = Inl e"
  by (simp_all add: decryptFromJSON_def)

lemma decryptFromJSON_parse_envelope:
  "parse_envelope num txt = Inl e \<Longrightarrow> decryptFromJSON crypto num txt W r = Inl e"
  "parse_envelope num txt = Inr E \<Longrightarrow>
   decryptFromJSON crypto num txt W r =
     (case decrypt crypto E W r of
        Inl e \<Rightarrow> Inl e
      | Inr (decrypted, r') \<Rightarrow> Inr (map ucast decrypted, r'))"
  by (auto simp: decryptFromJSON_def parse_envelope_def split: sum.splits)

lemma parse_envelope_error:
  "parse_envelope num txt = Inl e \<Longrightarrow>
   e = SyntaxError \<or> e = TypeError \<or> e = InvalidCharacterError"
  by (auto simp: parse_envelope_def split: sum.splits
      dest: JSON_parse_error base64ToEncryptedData_error)

lemma missing_or_bad_rejected:
  assumes p: "JSON_parse txt = Inr v" and m: "missing_member v \<or> bad_base64_member v"
  shows "\<exists>e. decryptFromJSON crypto num txt W r = Inl e \<and>
             (e = InvalidCharacterError \<or> e = TypeError)"
    and "members_print num v \<Longrightarrow>
         decryptFromJSON crypto num txt W r = Inl InvalidCharacterError"
proof -
  obtain e where e: "base64ToEncryptedData num v = Inl e"
    and k: "e = TypeError \<or> e = InvalidCharacterError"
    using m missing_member_rejected [of v num] bad_base64_member_rejected [of v num] by blast
  show "\<exists>e. decryptFromJSON crypto num txt W r = Inl e \<and>
             (e = InvalidCharacterError \<or> e = TypeError)"
    using decryptFromJSON_parse_stage(2) [OF p e] k by blast
  obtain k' x where g: "get_property v k' = Inr x"
    using missing_or_bad_gets_property [OF m] by blast
  show "decryptFromJSON crypto num txt W r = Inl InvalidCharacterError" if "members_print num v"
    using decryptFromJSON_parse_stage(2) [OF p e] base64ToEncryptedData_prints [OF that g e]
    by simp
qed

lemma members_print_empty_object: "members_print num (JObject [])"
  by (simp add: members_print_def get_property_def)

lemma members_print_null_ciphertext: "members_print num (JObject [(js ''ciphertext'', JNull)])"
  by (simp add: members_print_def get_property_def js_def)

text \<open>
  C3 (amended). \<^verbatim>\<open>decryptFromJSON\<close> fails in the parsing of its text, whatever the
  provider and the password, on: text that is not JSON (\<^verbatim>\<open>SyntaxError\<close>); the texts
  \<^verbatim>\<open>{}\<close> and \<^verbatim>\<open>{"ciphertext":null}\<close>, in which a member is missing
  (\<^verbatim>\<open>InvalidCharacterError\<close>); every parsed value in which one of the three members
  is missing or is a string that \<^verbatim>\<open>atob\<close> rejects (\<^verbatim>\<open>InvalidCharacterError\<close>, or
  the \<^verbatim>\<open>TypeError\<close> of a member read before it that cannot be converted to a string,
  as in \<^verbatim>\<open>{"ciphertext":{"toString":0}}\<close>). Every error of the parsing is a
  \<^verbatim>\<open>SyntaxError\<close>, a \<^verbatim>\<open>TypeError\<close> or an \<^verbatim>\<open>InvalidCharacterError\<close>, never the
  \<^verbatim>\<open>OperationError\<close> of the AES-GCM verification. A member that is \<^verbatim>\<open>null\<close> is not
  rejected for that: \<^verbatim>\<open>atob\<close> reads it as the base64 text \<^verbatim>\<open>null\<close>, three bytes,
  so an object whose three members are \<^verbatim>\<open>null\<close> is parsed into an envelope.
\<close>

theorem malformed_input_rejected:
  "decryptFromJSON crypto num text_not_json W r = Inl SyntaxError \<and>
   decryptFromJSON crypto num text_empty_object W r = Inl InvalidCharacterError \<and>
   decryptFromJSON crypto num text_null_ciphertext W r = Inl InvalidCharacterError \<and>
   decryptFromJSON crypto num text_toString_member W r = Inl TypeError \<and>
   (JSON_parse txt = Inl e \<longrightarrow> decryptFromJSON crypto num txt W r = Inl SyntaxError) \<and>
   (JSON_parse txt = Inr v \<and> (missing_member v \<or> bad_base64_member v) \<longrightarrow>
      (\<exists>e'. decryptFromJSON crypto num txt W r = Inl e' \<and>
            (e' = InvalidCharacterError \<or> e' = TypeError))) \<and>
   (JSON_parse txt = Inr v \<and> (missing_member v \<or> bad_base64_member v) \<and> members_print num v \<longrightarrow>
      decryptFromJSON crypto num txt W r = Inl InvalidCharacterError) \<and>
   (parse_envelope num txt = Inl e \<longrightarrow>
      decryptFromJSON crypto num txt W r = Inl e \<and>
      (e = SyntaxError \<or> e = TypeError \<or> e = InvalidCharacterError) \<and> e \<noteq> OperationError) \<and>
   parse_envelope num text_all_null =
     Inr \<lparr>ciphertext = [0x9E, 0xE9, 0x65], nonce = [0x9E, 0xE9, 0x65], salt = [0x9E, 0xE9, 0x65]\<rparr>"
proof (intro conjI impI)
  show "decryptFromJSON crypto num text_not_json W r = Inl SyntaxError"
    by (rule decryptFromJSON_parse_stage(1) [OF parse_not_json])
  show "decryptFromJSON crypto num text_empty_object W r = Inl InvalidCharacterError"
    by (rule missing_or_bad_rejected(2) [OF parse_empty_object _ members_print_empty_object])
       (simp add: missing_in_empty_object)
  show "decryptFromJSON crypto num text_null_ciphertext W r = Inl InvalidCharacterError"
    by (rule missing_or_bad_rejected(2) [OF parse_null_ciphertext _ members_print_null_ciphertext])
       (simp add: missing_in_null_ciphertext)
  show "decryptFromJSON crypto num text_toString_member W r = Inl TypeError"
    by (rule decryptFromJSON_parse_stage(2) [OF parse_toString_member toString_member_rejected])
  show "decryptFromJSON crypto num txt W r = Inl SyntaxError" if "JSON_parse txt = Inl e"
    using that JSON_parse_error [OF that] by (simp add: decryptFromJSON_parse_stage(1))
  show "\<exists>e'. decryptFromJSON crypto num txt W r = Inl e' \<and>
            (e' = InvalidCharacterError \<or> e' = TypeError)"
    if "JSON_parse txt = Inr v \<and> (missing_member v \<or> bad_base64_member v)"
    using that missing_or_bad_rejected [of "txt" v] by blast
  show "decryptFromJSON crypto num txt W r = Inl InvalidCharacterError"
    if "JSON_parse txt = Inr v \<and> (missing_member v \<or> bad_base64_member v) \<and> members_print num v"
    using that missing_or_bad_rejected [of "txt" v] by blast
  show "decryptFromJSON crypto num txt W r = Inl e" if "parse_envelope num txt = Inl e"
    by (rule decryptFromJSON_parse_envelope(1) [OF that])
  show "e = SyntaxError \<or> e = TypeError \<or> e = InvalidCharacterError"
    if "parse_envelope num txt = Inl e"
    by (rule parse_envelope_error [OF that])
  show "e \<noteq> OperationError" if "parse_envelope num txt = Inl e"
    using parse_envelope_error [OF that] by auto
  show "parse_envelope num text_all_null =
     Inr \<lparr>ciphertext = [0x9E, 0xE9, 0x65], nonce = [0x9E, 0xE9, 0x65], salt = [0x9E, 0xE9, 0x65]\<rparr>"
    by (simp add: parse_envelope_def parse_all_null all_null_decodes)
qed

theorem malformed_input_rejected_witness:
  "JSON_parse text_not_json = Inl SyntaxError \<and>
   decryptFromJSON toy_crypto as_written text_not_json (js ''pw'') zero_rng = Inl SyntaxError \<and>
   JSON_parse text_empty_object = Inr (JObject []) \<and> missing_member (JObject []) \<and>
   members_print as_written (JObject []) \<and>
   decryptFromJSON toy_crypto as_written text_empty_object (js ''pw'') zero_rng =
     Inl InvalidCharacterError \<and>
   bad_base64_member (JObject [(js ''ciphertext'', JString (js ''@@@@'')),
     (js ''nonce'', JString []), (js ''salt'', JString [])]) \<and>
   members_print as_written (JObject [(js ''ciphertext'', JString (js ''@@@@'')),
     (js ''nonce'', JString []), (js ''salt'', JString [])]) \<and>
   decryptFromJSON toy_crypto as_written text_bad_base64 (js ''pw'') zero_rng =
     Inl InvalidCharacterError \<and>
   parse_envelope as_written text_toString_member = Inl TypeError \<and>
   decryptFromJSON toy_crypto as_written text_toString_member (js ''pw'') zero_rng =
     Inl TypeError"
proof -
  have m: "members_print as_written (JObject [(js ''ciphertext'', JString (js ''@@@@'')),
     (js ''nonce'', JString []), (js ''salt'', JString [])])"
    by (simp add: members_print_def get_property_def js_def)
  have p: "parse_envelope as_written text_toString_member = Inl TypeError"
    by (simp add: parse_envelope_def parse_toString_member toString_member_rejected)
  show ?thesis
    using malformed_input_rejected [of toy_crypto as_written "js ''pw''" zero_rng
        text_not_json SyntaxError]
      malformed_input_rejected [of toy_crypto as_written "js ''pw''" zero_rng text_empty_object
        _ "JObject []"]
      malformed_input_rejected [of toy_crypto as_written "js ''pw''" zero_rng text_bad_base64
        _ "JObject [(js ''ciphertext'', JString (js ''@@@@'')),
       (js ''nonce'', JString []), (js ''salt'', JString [])]"]
      malformed_input_rejected [of toy_crypto as_written "js ''pw''" zero_rng
        text_toString_member TypeError]
      parse_not_json parse_empty_object parse_bad_base64 missing_in_empty_object
      bad_member_example members_print_empty_object m p
    by simp
qed

theorem null_members_counterexample:
  "JSON_parse text_all_null =
     Inr (JObject [(js ''ciphertext'', JNull), (js ''nonce'', JNull), (js ''salt'', JNull)]) \<and>
   parse_envelope as_written text_all_null =
     Inr \<lparr>ciphertext = [0x9E, 0xE9, 0x65], nonce = [0x9E, 0xE9, 0x65], salt = [0x9E, 0xE9, 0x65]\<rparr> \<and>
   decryptFromJSON toy_crypto as_written text_all_null (js ''pw'') zero_rng = Inl OperationError"
  by (simp add: parse_envelope_def parse_all_null decryptFromJSON_def all_null_decodes
      decrypt_eq [OF toy_crypto_subtle] toy_pbkdf2_raw toy_gcm_open)

subsection \<open>Length of the ciphertext\<close>







subsection \<open>Key derivation\<close>

lemma toy_exports_requested_length: "exports_requested_length toy_subtle"
  by (auto simp: exports_requested_length_def toy_subtle_def)

lemma strict_crypto_subtle: "crypto_subtle strict_crypto = Some strict_subtle"
  by (simp add: strict_crypto_def crypto_subtle_def)

lemma toy_same_slow_pbkdf2: "same_slow_pbkdf2 toy_subtle strict_subtle"
  by (simp add: same_slow_pbkdf2_def strict_subtle_def)

lemma pbkdf2_raw_same:
  assumes "same_slow_pbkdf2 s1 s2"
  shows "pbkdf2_raw s2 pw sl = pbkdf2_raw s1 pw sl"
proof -
  have i: "subtle_importKey s2 = subtle_importKey s1"
    and x: "subtle_exportKey s2 = subtle_exportKey s1"
    using assms by (simp_all add: same_slow_pbkdf2_def)
  have d: "subtle_deriveKey s2
      \<lparr>pbkdf2_name = ''PBKDF2'', pbkdf2_hash = ''SHA-256'', pbkdf2_salt = sl,
       pbkdf2_iterations = 100000\<rparr> bk a ext us =
    subtle_deriveKey s1
      \<lparr>pbkdf2_name = ''PBKDF2'', pbkdf2_hash = ''SHA-256'', pbkdf2_salt = sl,
       pbkdf2_iterations = 100000\<rparr> bk a ext us" for bk a ext us
    using assms by (simp add: same_slow_pbkdf2_def)
  show ?thesis
    unfolding pbkdf2_raw_def i x d ..
qed

lemma pbkdf2_raw_length:
  assumes "exports_requested_length s" and "pbkdf2_raw s pw sl = Inr key"
  shows "length key = 32"
proof -
  obtain bk dk where
    "subtle_deriveKey s
       \<lparr>pbkdf2_name = ''PBKDF2'', pbkdf2_hash = ''SHA-256'', pbkdf2_salt = sl,
        pbkdf2_iterations = 100000\<rparr> bk \<lparr>aes_name = ''AES-GCM'', aes_length = 256\<rparr>
       True [''encrypt'', ''decrypt''] = Inr dk"
    and "subtle_exportKey s ''raw'' dk = Inr key"
    using assms(2) by (auto simp: pbkdf2_raw_def split: sum.splits)
  then have "length key = aes_length \<lparr>aes_name = ''AES-GCM'', aes_length = 256\<rparr> div 8"
    using assms(1) unfolding exports_requested_length_def by blast
  then show ?thesis
    by simp
qed

text \<open>
  C6. Called with a salt, \<^verbatim>\<open>deriveKey\<close> draws no entropy and returns the salt it was
  given: its outcome is the provider's answer for the encoded password and the salt,
  the same at every call. On a provider that meets the contract the answer is a key
  of 32 bytes; on one that exports as many bytes as the bits asked for, a key that is
  returned has \<^verbatim>\<open>KEY_LENGTH\<close> = 32 bytes, because the module asks for 256 bits. The
  derivation the module asks for is PBKDF2 over SHA-256 with \<^verbatim>\<open>ITERATIONS\<close> = 100000
  iterations: two providers that agree on such derivations give the same outcome.
\<close>

theorem deriveKey_deterministic:
  assumes "crypto_subtle crypto = Some s"
  shows "deriveKey crypto W (Some sl) r =
           (case pbkdf2_raw s (TextEncoder_encode W) sl of
              Inl e \<Rightarrow> Inl e
            | Inr key \<Rightarrow> Inr ((key, sl), r)) \<and>
         (kdf_ok s \<longrightarrow>
            (\<exists>key. length key = 32 \<and>
               (\<forall>r1. deriveKey crypto W (Some sl) r1 = Inr ((key, sl), r1)))) \<and>
         (exports_requested_length s \<and> deriveKey crypto W (Some sl) r = Inr ((key, sl1), r1) \<longrightarrow>
            length key = KEY_LENGTH \<and> KEY_LENGTH = 32 \<and> sl1 = sl \<and> r1 = r) \<and>
         (crypto_subtle crypto2 = Some s2 \<and> same_slow_pbkdf2 s s2 \<longrightarrow>
            deriveKey crypto2 W (Some sl) r = deriveKey crypto W (Some sl) r) \<and>
         100000 \<le> ITERATIONS \<and> HASH = ''SHA-256''"
proof (intro conjI impI)
  show "deriveKey crypto W (Some sl) r =
           (case pbkdf2_raw s (TextEncoder_encode W) sl of
              Inl e \<Rightarrow> Inl e
            | Inr key \<Rightarrow> Inr ((key, sl), r))"
    by (rule deriveKey_given [OF assms])
  show "\<exists>key. length key = 32 \<and>
          (\<forall>r1. deriveKey crypto W (Some sl) r1 = Inr ((key, sl), r1))" if kd: "kdf_ok s"
  proof -
    obtain k0 where "pbkdf2_raw s (TextEncoder_encode W) sl = Inr k0" and "length k0 = 32"
      using kd unfolding kdf_ok_def by blast
    then show ?thesis
      by (auto simp: deriveKey_given [OF assms])
  qed
  have ret: "pbkdf2_raw s (TextEncoder_encode W) sl = Inr key \<and> sl1 = sl \<and> r1 = r"
    if "deriveKey crypto W (Some sl) r = Inr ((key, sl1), r1)"
    using that by (auto simp: deriveKey_given [OF assms] split: sum.splits)
  show "length key = KEY_LENGTH"
    if "exports_requested_length s \<and> deriveKey crypto W (Some sl) r = Inr ((key, sl1), r1)"
    using that ret pbkdf2_raw_length [of s "TextEncoder_encode W" sl key]
    by (simp add: KEY_LENGTH_def)
  show "KEY_LENGTH = 32"
    by (simp add: KEY_LENGTH_def)
  show "sl1 = sl" and "r1 = r"
    if "exports_requested_length s \<and> deriveKey crypto W (Some sl) r = Inr ((key, sl1), r1)"
    using that ret by simp_all
  show "deriveKey crypto2 W (Some sl) r = deriveKey crypto W (Some sl) r"
    if "crypto_subtle crypto2 = Some s2 \<and> same_slow_pbkdf2 s s2"
    using that pbkdf2_raw_same [of s s2 "TextEncoder_encode W" sl]
    by (simp add: deriveKey_given [OF assms] deriveKey_given [of crypto2 s2])
  show "100000 \<le> ITERATIONS" and "HASH = ''SHA-256''"
    by (simp_all add: ITERATIONS_def HASH_def)
qed

theorem deriveKey_deterministic_witness:
  "kdf_ok toy_subtle \<and> exports_requested_length toy_subtle \<and>
   same_slow_pbkdf2 toy_subtle strict_subtle \<and>
   deriveKey toy_crypto (js ''pw'') (Some (replicate 16 7)) zero_rng =
     Inr ((replicate 32 87, replicate 16 7), zero_rng) \<and>
   deriveKey strict_crypto (js ''pw'') (Some (replicate 16 7)) zero_rng =
     Inr ((replicate 32 87, replicate 16 7), zero_rng) \<and>
   subtle_deriveKey strict_subtle
     \<lparr>pbkdf2_name = ''PBKDF2'', pbkdf2_hash = ''SHA-256'', pbkdf2_salt = replicate 16 7,
      pbkdf2_iterations = 99999\<rparr> [] \<lparr>aes_name = ''AES-GCM'', aes_length = 256\<rparr> True [] =
     Inl NotSupportedError"
proof -
  have k: "deriveKey toy_crypto (js ''pw'') (Some (replicate 16 7)) zero_rng =
     Inr ((replicate 32 87, replicate 16 7), zero_rng)"
    by (simp add: deriveKey_given [OF toy_crypto_subtle] toy_pbkdf2_raw js_def
        TextEncoder_encode_def utf8_bytes_def is_lead_def is_trail_def sum_list_replicate)
  have n: "subtle_deriveKey strict_subtle
     \<lparr>pbkdf2_name = ''PBKDF2'', pbkdf2_hash = ''SHA-256'', pbkdf2_salt = replicate 16 7,
      pbkdf2_iterations = 99999\<rparr> [] \<lparr>aes_name = ''AES-GCM'', aes_length = 256\<rparr> True [] =
     Inl NotSupportedError"
    by (simp add: strict_subtle_def)
  show ?thesis
    using deriveKey_deterministic [OF toy_crypto_subtle, where W = "js ''pw''"
        and sl = "replicate 16 7" and r = zero_rng and ?r1.0 = zero_rng
        and key = "replicate 32 87" and ?sl1.0 = "replicate 16 7"
        and ?crypto2.0 = strict_crypto and ?s2.0 = strict_subtle]
      toy_kdf_ok toy_exports_requested_length toy_same_slow_pbkdf2 strict_crypto_subtle k n
    by simp
qed

subsection \<open>Modified envelopes\<close>




























subsection \<open>Another password\<close>










subsection \<open>The parser consumes text\<close>

lemma parse_digits_le: "parse_digits cs = Some (d, r) \<Longrightarrow> length r \<le> length cs"
  by (auto simp: parse_digits_def length_dropWhile_le split: if_splits)

lemma parse_int_part_shorter: "parse_int_part cs = Some (i, r) \<Longrightarrow> length r < length cs"
  using length_dropWhile_le [of is_digit "tl cs"]
  by (auto simp: parse_int_part_def split: list.splits if_splits)

lemma parse_frac_part_le: "parse_frac_part cs = Some (f, r) \<Longrightarrow> length r \<le> length cs"
  by (auto simp: parse_frac_part_def split: list.splits if_splits option.splits
      dest!: parse_digits_le)

lemma parse_exp_part_le: "parse_exp_part cs = Some (x, r) \<Longrightarrow> length r \<le> length cs"
  by (auto simp: parse_exp_part_def split: list.splits if_splits option.splits
      dest!: parse_digits_le)

lemma parse_number_shorter:
  assumes "parse_number cs = Some (n, r)"
  shows "length r < length cs"
proof -
  obtain sign cs1 where s: "(case cs of [] \<Rightarrow> ([], cs) | c # r \<Rightarrow> if c = 0x2D then ([c], r) else ([], cs)) = (sign, cs1)"
    by fastforce
  then have l1: "length cs1 \<le> length cs"
    by (auto split: list.splits if_splits)
  obtain i cs2 f cs3 x where "parse_int_part cs1 = Some (i, cs2)"
    and "parse_frac_part cs2 = Some (f, cs3)" and "parse_exp_part cs3 = Some (x, r)"
    using assms unfolding parse_number_def s by (auto split: option.splits)
  then show ?thesis
    using l1 parse_int_part_shorter [of cs1 i cs2] parse_frac_part_le [of cs2 f cs3]
      parse_exp_part_le [of cs3 x r] by simp
qed

lemma take_eq_length:
  assumes "take n cs = xs" and "length xs = n"
  shows "n \<le> length cs"
proof -
  have "length (take n cs) = n"
    unfolding assms(1) by (rule assms(2))
  then show ?thesis
    by simp
qed

lemma parse_literal_shorter:
  assumes "parse_literal cs = Some (v, r)"
  shows "length r < length cs"
proof -
  have "4 \<le> length cs" if "take 4 cs = js ''true'' \<or> take 4 cs = js ''null''"
    using that take_eq_length [of 4 cs "js ''true''"] take_eq_length [of 4 cs "js ''null''"]
    by (auto simp: js_def)
  moreover have "5 \<le> length cs" if "take 5 cs = js ''false''"
    using that take_eq_length [of 5 cs "js ''false''"] by (auto simp: js_def)
  ultimately show ?thesis
    using assms by (auto simp: parse_literal_def split: if_splits)
qed

lemma parse_value_shorter:
  "parse_value cs = Some (v, r) \<Longrightarrow> length r < length cs"
  "parse_elements acc cs = Some (v, r) \<Longrightarrow> length r < length cs"
  "parse_members acc' cs = Some (v, r) \<Longrightarrow> length r < length cs"
proof (induction cs and acc cs and acc' cs arbitrary: v r and v r and v r
    rule: parse_value_parse_elements_parse_members.induct)
  case (1 cs)
  obtain c rest where cs: "cs = c # rest"
    using "1.prems" by (cases cs) (simp_all add: parse_value.simps)
  have p: "(if c = 0x7B then
            (case skip_ws rest of
               [] \<Rightarrow> None
             | d # r \<Rightarrow> if d = 0x7D then Some (JObject [], r) else parse_members [] (skip_ws rest))
          else if c = 0x5B then
            (case skip_ws rest of
               [] \<Rightarrow> None
             | d # r \<Rightarrow> if d = 0x5D then Some (JArray [], r) else parse_elements [] rest)
          else if c = 0x22 then
            (case parse_string_chars rest of None \<Rightarrow> None | Some (s, r) \<Rightarrow> Some (JString s, r))
          else if c = 0x2D \<or> is_digit c then
            (case parse_number cs of None \<Rightarrow> None | Some (n, r) \<Rightarrow> Some (JNumber n, r))
          else parse_literal cs) = Some (v, r)"
    using "1.prems" unfolding cs parse_value.simps [of "c # rest"] by simp
  show ?case
  proof (cases "c = 0x7B")
    case True
    then obtain d r0 where sw: "skip_ws rest = d # r0"
      using p by (auto split: list.splits)
    show ?thesis
    proof (cases "d = 0x7D")
      case True
      then show ?thesis
        using p \<open>c = 0x7B\<close> sw skip_ws_Cons_shorter [OF sw] by (simp add: cs)
    next
      case False
      then have "parse_members [] (skip_ws rest) = Some (v, r)"
        using p \<open>c = 0x7B\<close> sw by simp
      then have "length r < length (skip_ws rest)"
        by (rule "1.IH"(1) [OF cs \<open>c = 0x7B\<close> sw False])
      then show ?thesis
        using length_skip_ws [of rest] by (simp add: cs)
    qed
  next
    case n1: False
    show ?thesis
    proof (cases "c = 0x5B")
      case True
      then obtain d r0 where sw: "skip_ws rest = d # r0"
        using p n1 by (auto split: list.splits)
      show ?thesis
      proof (cases "d = 0x5D")
        case True
        then show ?thesis
          using p n1 \<open>c = 0x5B\<close> sw skip_ws_Cons_shorter [OF sw] by (simp add: cs)
      next
        case False
        then have "parse_elements [] rest = Some (v, r)"
          using p n1 \<open>c = 0x5B\<close> sw by simp
        then have "length r < length rest"
          by (rule "1.IH"(2) [OF cs n1 \<open>c = 0x5B\<close> sw False])
        then show ?thesis
          by (simp add: cs)
      qed
    next
      case n2: False
      show ?thesis
      proof (cases "c = 0x22")
        case True
        then obtain s where "parse_string_chars rest = Some (s, r)"
          using p n1 n2 by (auto split: option.splits)
        then show ?thesis
          using parse_string_chars_shorter [of rest s r] by (simp add: cs)
      next
        case n3: False
        show ?thesis
        proof (cases "c = 0x2D \<or> is_digit c")
          case True
          then obtain n where "parse_number cs = Some (n, r)"
            using p n1 n2 n3 by (auto split: option.splits)
          then show ?thesis
            by (rule parse_number_shorter)
        next
          case False
          then have "parse_literal cs = Some (v, r)"
            using p n1 n2 n3 by simp
          then show ?thesis
            by (rule parse_literal_shorter)
        qed
      qed
    qed
  qed
next
  case (2 acc cs)
  obtain v0 rest where pv: "parse_value (skip_ws cs) = Some (v0, rest)"
    using "2.prems" unfolding parse_elements.simps [of acc cs] by (auto split: option.splits)
  have lt: "length rest < length cs"
    using "2.IH"(1) [OF pv] length_skip_ws [of cs] by simp
  have p: "(case skip_ws rest of
              [] \<Rightarrow> None
            | d # r \<Rightarrow>
                if d = 0x2C then parse_elements (acc @ [v0]) r
                else if d = 0x5D then Some (JArray (acc @ [v0]), r)
                else None) = Some (v, r)"
    using "2.prems" pv lt unfolding parse_elements.simps [of acc cs] by simp
  then obtain d r0 where sw: "skip_ws rest = d # r0"
    by (auto split: list.splits)
  have l0: "length r0 < length rest"
    by (rule skip_ws_Cons_shorter [OF sw])
  show ?case
  proof (cases "d = 0x2C")
    case True
    then have "parse_elements (acc @ [v0]) r0 = Some (v, r)"
      using p sw by simp
    then have "length r < length r0"
      by (rule "2.IH"(2) [OF pv refl lt sw True])
    then show ?thesis
      using l0 lt by simp
  next
    case False
    then have "r = r0"
      using p sw by (auto split: if_splits)
    then show ?thesis
      using l0 lt by simp
  qed
next
  case (3 acc cs)
  obtain q rest where cs: "cs = q # rest"
    using "3.prems" by (cases cs) (simp_all add: parse_members.simps)
  have q: "q = 0x22"
    using "3.prems" unfolding cs parse_members.simps [of acc "q # rest"]
    by (auto split: if_splits)
  obtain k r1 where ps: "parse_string_chars rest = Some (k, r1)"
    using "3.prems" q unfolding cs parse_members.simps [of acc "q # rest"]
    by (auto split: option.splits)
  obtain d r2 where sw: "skip_ws r1 = d # r2"
    using "3.prems" q ps unfolding cs parse_members.simps [of acc "q # rest"]
    by (auto split: list.splits)
  have d: "d = 0x3A"
    using "3.prems" q ps sw unfolding cs parse_members.simps [of acc "q # rest"]
    by (auto split: if_splits)
  obtain v0 r3 where pv: "parse_value (skip_ws r2) = Some (v0, r3)"
    using "3.prems" q ps sw d unfolding cs parse_members.simps [of acc "q # rest"]
    by (auto split: option.splits)
  have "length r3 < length (skip_ws r2)"
    by (rule "3.IH"(1) [OF cs q ps refl sw d pv])
  then have lt: "length r3 < length cs"
    using length_skip_ws [of r2] skip_ws_Cons_shorter [OF sw]
      parse_string_chars_shorter [OF ps] by (simp add: cs)
  have p: "(case skip_ws r3 of
              [] \<Rightarrow> None
            | e # r4 \<Rightarrow>
                if e = 0x2C then parse_members (acc @ [(k, v0)]) (skip_ws r4)
                else if e = 0x7D then Some (JObject (acc @ [(k, v0)]), r4)
                else None) = Some (v, r)"
    using "3.prems" q ps sw d pv lt unfolding cs parse_members.simps [of acc "q # rest"]
    by simp
  then obtain e r4 where sw3: "skip_ws r3 = e # r4"
    by (auto split: list.splits)
  have l4: "length r4 < length r3"
    by (rule skip_ws_Cons_shorter [OF sw3])
  show ?case
  proof (cases "e = 0x2C")
    case True
    then have "parse_members (acc @ [(k, v0)]) (skip_ws r4) = Some (v, r)"
      using p sw3 by simp
    then have "length r < length (skip_ws r4)"
      by (rule "3.IH"(2) [OF cs q ps refl sw d pv refl lt sw3 True])
    then show ?thesis
      using length_skip_ws [of r4] l4 lt by simp
  next
    case False
    then have "r = r4"
      using p sw3 by (auto split: if_splits)
    then show ?thesis
      using l4 lt by simp
  qed
qed

text \<open>So the two tests of the parser that a value has consumed text never fail.\<close>

lemma parse_elements_unguarded:
  "parse_elements acc cs =
     (case parse_value (skip_ws cs) of
        None \<Rightarrow> None
      | Some (v, rest) \<Rightarrow>
          (case skip_ws rest of
             [] \<Rightarrow> None
           | d # r \<Rightarrow>
               if d = 0x2C then parse_elements (acc @ [v]) r
               else if d = 0x5D then Some (JArray (acc @ [v]), r)
               else None))"
proof (cases "parse_value (skip_ws cs)")
  case None
  then show ?thesis
    by (simp add: parse_elements.simps [of acc cs])
next
  case (Some a)
  obtain v rest where a: "a = (v, rest)"
    by (cases a)
  have "length rest < length cs"
    using parse_value_shorter(1) [of "skip_ws cs" v rest] Some a length_skip_ws [of cs] by simp
  then show ?thesis
    using Some a by (simp add: parse_elements.simps [of acc cs])
qed

lemma parse_members_guard:
  assumes "parse_string_chars rest = Some (k, r1)" and "skip_ws r1 = d # r2"
    and "parse_value (skip_ws r2) = Some (v, r3)"
  shows "length r3 < length (q # rest)"
  using parse_value_shorter(1) [OF assms(3)] length_skip_ws [of r2]
    skip_ws_Cons_shorter [OF assms(2)] parse_string_chars_shorter [OF assms(1)]
  by simp

end
